theory Spec2Isabelle
  imports Main "HOL-Library.Char_ord" "HOL-Library.List_Lexorder" "HOL-Library.AList"
begin

section \<open>Values and annotations\<close>

text \<open>
  A finite \<^verbatim>\<open>decimal.Decimal\<close>: sign (True for negative), coefficient and exponent,
  the triple Python keeps as \<^verbatim>\<open>_sign\<close>, \<^verbatim>\<open>_int\<close> and \<^verbatim>\<open>_exp\<close>.
  Infinities and NaNs are left out.
\<close>

datatype decimal = Decimal (dsign: bool) (dcoeff: nat) (dexp: int)

text \<open>
  The Python values that flow through the wizard. \<open>VUndefined\<close> is the sentinel
  \<^verbatim>\<open>PydanticUndefined\<close>. A set is the list of its elements in iteration order, a dict
  the list of its items in insertion order, an enum member carries its class name, its
  own name and its value, a model instance its class name and its field values.
  Floats and the \<^verbatim>\<open>datetime\<close> classes are not modelled.
\<close>

datatype pyval =
    VNone
  | VUndefined
  | VBool bool
  | VInt int
  | VStr string
  | VDecimal decimal
  | VEnum string string pyval
  | VList "pyval list"
  | VTuple "pyval list"
  | VSet "pyval list"
  | VDict "(pyval \<times> pyval) list"
  | VModel string "(string \<times> pyval) list"

text \<open>
  A type annotation as \<^verbatim>\<open>typing.get_origin\<close> and \<^verbatim>\<open>typing.get_args\<close> see it:
  either a plain object (a class or anything else, with no origin and no arguments) or
  a generic alias with an origin and arguments. \<open>LitVal\<close> is a value that appears as
  an argument of \<^verbatim>\<open>Literal[...]\<close>. An enumeration class carries its name and its
  members, each with its name and value, in the order of definition and without aliases.
\<close>

datatype origin = UnionType | TypingUnion | ListO | SetO | DictO | LiteralO | OtherO string

datatype annotation =
    NoneType
  | AnyT
  | BoolT
  | StrT
  | IntT
  | FloatT
  | DecimalT
  | DatetimeT
  | TimeT
  | TimedeltaT
  | EnumT string "(string \<times> pyval) list"
  | ModelT string
  | OtherT string
  | LitVal pyval
  | Alias origin "annotation list"

fun get_origin :: "annotation \<Rightarrow> origin option" where
  "get_origin (Alias orig as) = Some orig"
| "get_origin _ = None"

fun get_args :: "annotation \<Rightarrow> annotation list" where
  "get_args (Alias orig as) = as"
| "get_args _ = []"

datatype error = IndexError | ValueError | TypeError | InvalidOperation | KeyError

text \<open>The outcome of calling a default factory with no arguments.\<close>

datatype call_result = Returned pyval | Raised error

section \<open>introspection.py\<close>

record FieldSpec =
  name :: string
  annotation :: "annotation option"
  origin :: "origin option"
  args :: "annotation list"
  default :: pyval
  default_factory :: "(unit \<Rightarrow> call_result) option"
  description :: "string option"
  constraints :: "(string \<times> pyval) list"
  is_required :: bool
  is_optional :: bool
  is_init :: bool
  inner_type :: "annotation option"
  is_enum :: bool
  is_literal :: bool
  is_pydantic_model :: bool
  is_union :: bool
  union_types :: "annotation list"
  is_list :: bool
  is_set :: bool
  is_dict :: bool
  key_type :: "annotation option"
  value_type :: "annotation option"

text \<open>\<^verbatim>\<open>FieldSpec(name=n)\<close>: every other field at its dataclass default.\<close>

definition FieldSpec_init :: "string \<Rightarrow> FieldSpec" where
  "FieldSpec_init n = \<lparr> name = n, annotation = None, origin = None, args = [],
     default = VUndefined, default_factory = None, description = None, constraints = [],
     is_required = True, is_optional = False, is_init = True, inner_type = None,
     is_enum = False, is_literal = False, is_pydantic_model = False, is_union = False,
     union_types = [], is_list = False, is_set = False, is_dict = False,
     key_type = None, value_type = None \<rparr>"

definition is_none_type :: "annotation \<Rightarrow> bool" where
  "is_none_type tp = (tp = NoneType)"

fun is_pydantic_model_type :: "annotation \<Rightarrow> bool" where
  "is_pydantic_model_type (ModelT n) = True"
| "is_pydantic_model_type _ = False"

fun is_enum_type :: "annotation \<Rightarrow> bool" where
  "is_enum_type (EnumT n ms) = True"
| "is_enum_type _ = False"

text \<open>\<^verbatim>\<open>xs[i]\<close> for a non-negative index: IndexError out of range.\<close>

definition py_index :: "'a list \<Rightarrow> nat \<Rightarrow> error + 'a" where
  "py_index xs i = (if i < length xs then Inr (xs ! i) else Inl IndexError)"

text \<open>\<^verbatim>\<open>getattr(origin, "__qualname__", None) == "Union"\<close>\<close>

fun qualname_is_Union :: "origin \<Rightarrow> bool" where
  "qualname_is_Union TypingUnion = True"
| "qualname_is_Union (OtherO n) = (n = ''Union'')"
| "qualname_is_Union _ = False"

text \<open>The assignments of the one-alternative branch of a union, copied from \<open>inner\<close>.\<close>

definition copy_inner :: "FieldSpec \<Rightarrow> annotation \<Rightarrow> FieldSpec \<Rightarrow> FieldSpec" where
  "copy_inner spec a0 inner =
     (let spec = spec\<lparr> inner_type := Some a0,
                      is_enum := is_enum inner,
                      is_literal := is_literal inner,
                      is_pydantic_model := is_pydantic_model inner,
                      is_list := is_list inner,
                      is_set := is_set inner,
                      is_dict := is_dict inner,
                      union_types := union_types inner,
                      is_union := is_union inner,
                      key_type := key_type inner,
                      value_type := value_type inner \<rparr>
      in if inner_type inner \<noteq> None then spec\<lparr> inner_type := inner_type inner \<rparr> else spec)"

lemma size_py_index:
  "py_index (filter P as) i = Inr a \<Longrightarrow> size a < Suc (size_list size as)"
proof -
  assume "py_index (filter P as) i = Inr a"
  then have "i < length (filter P as)" and "a = filter P as ! i"
    by (auto simp: py_index_def split: if_splits)
  then have "a \<in> set (filter P as)"
    using nth_mem by blast
  then have "a \<in> set as" by simp
  then have "size a \<le> size_list size as"
    by (rule size_list_estimation') simp
  then show ?thesis by simp
qed

function resolve_type :: "annotation \<Rightarrow> error + FieldSpec" where
  "resolve_type ann =
     (let orig = get_origin ann;
          as = get_args ann;
          spec = (FieldSpec_init '''')\<lparr> origin := orig, args := as \<rparr>
      in
      if orig = Some UnionType then
        (let non_none = filter (\<lambda>a. \<not> is_none_type a) as;
             has_none = (length non_none < length as);
             spec = spec\<lparr> is_optional := has_none \<rparr>
         in
         if length non_none = 1 then
           (case py_index non_none 0 of
              Inl e \<Rightarrow> Inl e
            | Inr a0 \<Rightarrow>
                (case resolve_type a0 of
                   Inl e \<Rightarrow> Inl e
                 | Inr inner \<Rightarrow> Inr (copy_inner spec a0 inner)))
         else if length non_none > 1 then
           Inr (spec\<lparr> is_union := True, union_types := non_none \<rparr>)
         else Inr spec)
      else if orig \<noteq> None \<and> qualname_is_Union (the orig) then
        (let non_none = filter (\<lambda>a. \<not> is_none_type a) as;
             has_none = (length non_none < length as);
             spec = spec\<lparr> is_optional := has_none \<rparr>
         in
         if length non_none = 1 then
           (case py_index non_none 0 of
              Inl e \<Rightarrow> Inl e
            | Inr a0 \<Rightarrow>
                (case resolve_type a0 of
                   Inl e \<Rightarrow> Inl e
                 | Inr inner \<Rightarrow> Inr (copy_inner spec a0 inner)))
         else if length non_none > 1 then
           Inr (spec\<lparr> is_union := True, union_types := non_none \<rparr>)
         else Inr spec)
      else if orig = Some ListO then
        (case (if as \<noteq> [] then py_index as 0 else Inr AnyT) of
           Inl e \<Rightarrow> Inl e
         | Inr t \<Rightarrow> Inr (spec\<lparr> is_list := True, inner_type := Some t \<rparr>))
      else if orig = Some SetO then
        (case (if as \<noteq> [] then py_index as 0 else Inr AnyT) of
           Inl e \<Rightarrow> Inl e
         | Inr t \<Rightarrow> Inr (spec\<lparr> is_set := True, inner_type := Some t \<rparr>))
      else if orig = Some DictO then
        (case (if as \<noteq> [] then py_index as 0 else Inr StrT) of
           Inl e \<Rightarrow> Inl e
         | Inr k \<Rightarrow>
             (case (if length as > 1 then py_index as 1 else Inr AnyT) of
                Inl e \<Rightarrow> Inl e
              | Inr v \<Rightarrow> Inr (spec\<lparr> is_dict := True, key_type := Some k, value_type := Some v \<rparr>)))
      else if orig = Some LiteralO then
        Inr (spec\<lparr> is_literal := True \<rparr>)
      else
        (let spec = (if is_enum_type ann then spec\<lparr> is_enum := True \<rparr>
                     else if is_pydantic_model_type ann then spec\<lparr> is_pydantic_model := True \<rparr>
                     else spec)
         in Inr (spec\<lparr> inner_type := Some ann \<rparr>)))"
  by pat_completeness auto
termination
proof (relation "measure size")
  show "wf (measure size)" by simp
next
  fix ann :: annotation and orig as spec non_none has_none speca a0
  assume "orig = get_origin ann" "as = get_args ann" "orig = Some UnionType"
    "non_none = filter (\<lambda>a. \<not> is_none_type a) as" "py_index non_none 0 = Inr a0"
  then show "(a0, ann) \<in> measure size"
    by (cases ann) (auto dest: size_py_index)
next
  fix ann :: annotation and orig as spec non_none has_none speca a0
  assume "orig = get_origin ann" "as = get_args ann"
    "orig \<noteq> None \<and> qualname_is_Union (the orig)"
    "non_none = filter (\<lambda>a. \<not> is_none_type a) as" "py_index non_none 0 = Inr a0"
  then show "(a0, ann) \<in> measure size"
    by (cases ann) (auto dest: size_py_index)
qed

declare resolve_type.simps [simp del]

text \<open>
  The part of pydantic's \<^verbatim>\<open>FieldInfo\<close> that \<^verbatim>\<open>introspect_model\<close> reads. Each entry of
  \<open>fi_metadata\<close> is one metadata object, given by its attributes.
\<close>

record FieldInfo =
  fi_annotation :: "annotation option"
  fi_default :: pyval
  fi_default_factory :: "(unit \<Rightarrow> call_result) option"
  fi_description :: "string option"
  fi_metadata :: "(string \<times> pyval) list list"
  fi_init :: "bool option"
  fi_frozen :: "bool option"

text \<open>\<^verbatim>\<open>getattr(meta, attr, None)\<close>\<close>

definition getattr_or_None :: "(string \<times> pyval) list \<Rightarrow> string \<Rightarrow> pyval" where
  "getattr_or_None meta attr = (case map_of meta attr of None \<Rightarrow> VNone | Some v \<Rightarrow> v)"

definition constraint_attrs :: "string list" where
  "constraint_attrs = [''ge'', ''le'', ''gt'', ''lt'', ''min_length'', ''max_length'', ''pattern'']"

fun extract_attrs :: "(string \<times> pyval) list \<Rightarrow> string list \<Rightarrow> (string \<times> pyval) list \<Rightarrow> (string \<times> pyval) list" where
  "extract_attrs meta [] cs = cs"
| "extract_attrs meta (attr # attrs) cs =
     (let val = getattr_or_None meta attr
      in extract_attrs meta attrs (if val \<noteq> VNone then AList.update attr val cs else cs))"

fun extract_metas :: "(string \<times> pyval) list list \<Rightarrow> (string \<times> pyval) list \<Rightarrow> (string \<times> pyval) list" where
  "extract_metas [] cs = cs"
| "extract_metas (meta # metas) cs = extract_metas metas (extract_attrs meta constraint_attrs cs)"

definition extract_constraints :: "FieldInfo \<Rightarrow> (string \<times> pyval) list" where
  "extract_constraints field_info = extract_metas (fi_metadata field_info) []"

text \<open>
  One iteration of the loop of \<^verbatim>\<open>introspect_model\<close>: \<open>Inr None\<close> is the
  \<^verbatim>\<open>continue\<close> of a field without annotation.
\<close>

definition introspect_field :: "string \<Rightarrow> FieldInfo \<Rightarrow> error + FieldSpec option" where
  "introspect_field n field_info =
     (case fi_annotation field_info of
        None \<Rightarrow> Inr None
      | Some ann \<Rightarrow>
          (case resolve_type ann of
             Inl e \<Rightarrow> Inl e
           | Inr resolved \<Rightarrow>
               (let resolved = resolved\<lparr> name := n, annotation := Some ann,
                                 description := fi_description field_info,
                                 constraints := extract_constraints field_info \<rparr>;
                    resolved =
                      (if fi_default field_info \<noteq> VUndefined then
                         resolved\<lparr> default := fi_default field_info, is_required := False \<rparr>
                       else if fi_default_factory field_info \<noteq> None then
                         resolved\<lparr> default_factory := fi_default_factory field_info,
                                   is_required := False \<rparr>
                       else resolved);
                    resolved =
                      (if is_optional resolved \<and> is_required resolved then
                         resolved\<lparr> default := VNone, is_required := False \<rparr>
                       else resolved);
                    resolved =
                      (if fi_init field_info = Some False then resolved\<lparr> is_init := False \<rparr>
                       else resolved);
                    resolved =
                      (if fi_frozen field_info = Some True then resolved\<lparr> is_init := False \<rparr>
                       else resolved)
                in Inr (Some resolved))))"

fun introspect_loop :: "(string \<times> FieldInfo) list \<Rightarrow> FieldSpec list \<Rightarrow> error + FieldSpec list" where
  "introspect_loop [] specs = Inr specs"
| "introspect_loop ((n, field_info) # rest) specs =
     (case introspect_field n field_info of
        Inl e \<Rightarrow> Inl e
      | Inr None \<Rightarrow> introspect_loop rest specs
      | Inr (Some resolved) \<Rightarrow> introspect_loop rest (specs @ [resolved]))"

text \<open>A model class is given by its \<^verbatim>\<open>model_fields\<close>, in declaration order.\<close>

definition introspect_model :: "(string \<times> FieldInfo) list \<Rightarrow> error + FieldSpec list" where
  "introspect_model model_fields = introspect_loop model_fields []"

section \<open>type_handlers.py: applicability and the registry\<close>

text \<open>
  The sixteen handler classes, and a handler registered by a caller, given by a label
  and its \<^verbatim>\<open>can_handle\<close> predicate.
\<close>

datatype handler =
    OptionalHandler | UnionHandler | ListHandler | SetHandler | DictHandler
  | BoolHandler | EnumHandler | LiteralHandler | DecimalHandler | IntHandler
  | FloatHandler | DatetimeHandler | TimeHandler | TimedeltaHandler
  | PydanticModelHandler | StrHandler
  | CustomHandler string "FieldSpec \<Rightarrow> bool"

fun can_handle :: "handler \<Rightarrow> FieldSpec \<Rightarrow> bool" where
  "can_handle BoolHandler spec = (inner_type spec = Some BoolT)"
| "can_handle StrHandler spec = (inner_type spec = Some StrT)"
| "can_handle IntHandler spec = (inner_type spec = Some IntT)"
| "can_handle FloatHandler spec = (inner_type spec = Some FloatT)"
| "can_handle DecimalHandler spec = (inner_type spec = Some DecimalT)"
| "can_handle EnumHandler spec = is_enum spec"
| "can_handle LiteralHandler spec = is_literal spec"
| "can_handle DatetimeHandler spec = (inner_type spec = Some DatetimeT)"
| "can_handle TimeHandler spec = (inner_type spec = Some TimeT)"
| "can_handle TimedeltaHandler spec = (inner_type spec = Some TimedeltaT)"
| "can_handle OptionalHandler spec = is_optional spec"
| "can_handle ListHandler spec = is_list spec"
| "can_handle SetHandler spec = is_set spec"
| "can_handle DictHandler spec = is_dict spec"
| "can_handle UnionHandler spec = (is_union spec \<and> \<not> is_optional spec)"
| "can_handle PydanticModelHandler spec = is_pydantic_model spec"
| "can_handle (CustomHandler label p) spec = p spec"

text \<open>The registry is its \<^verbatim>\<open>_handlers\<close> list.\<close>

type_synonym TypeHandlerRegistry = "handler list"

definition TypeHandlerRegistry_init :: TypeHandlerRegistry where
  "TypeHandlerRegistry_init =
     [OptionalHandler, UnionHandler, ListHandler, SetHandler, DictHandler, BoolHandler,
      EnumHandler, LiteralHandler, DecimalHandler, IntHandler, FloatHandler,
      DatetimeHandler, TimeHandler, TimedeltaHandler, PydanticModelHandler, StrHandler]"

definition register :: "handler \<Rightarrow> bool \<Rightarrow> TypeHandlerRegistry \<Rightarrow> TypeHandlerRegistry" where
  "register h priority reg = (if priority then h # reg else reg @ [h])"

fun get_handler :: "TypeHandlerRegistry \<Rightarrow> FieldSpec \<Rightarrow> handler option" where
  "get_handler [] spec = None"
| "get_handler (h # hs) spec = (if can_handle h spec then Some h else get_handler hs spec)"

text \<open>
  The handler \<^verbatim>\<open>prompt_model\<close> uses for a field: the registry's, or a fresh
  \<^verbatim>\<open>StrHandler\<close> when the registry has none.
\<close>

definition prompt_model_handler :: "TypeHandlerRegistry \<Rightarrow> FieldSpec \<Rightarrow> handler" where
  "prompt_model_handler registry spec =
     (case get_handler registry spec of None \<Rightarrow> StrHandler | Some h \<Rightarrow> h)"

section \<open>Python's string forms\<close>

definition digit_char :: "nat \<Rightarrow> char" where
  "digit_char d = ''0123456789'' ! d"



text \<open>\<^verbatim>\<open>str(n)\<close> for a non-negative integer.\<close>

fun str_of_nat :: "nat \<Rightarrow> string" where
  "str_of_nat n =
     (if n < 10 then [digit_char n] else str_of_nat (n div 10) @ [digit_char (n mod 10)])"

declare str_of_nat.simps [simp del]

definition str_of_int :: "int \<Rightarrow> string" where
  "str_of_int i = (if i < 0 then CHR ''-'' # str_of_nat (nat (- i)) else str_of_nat (nat i))"


text \<open>\<^verbatim>\<open>"%+d" % i\<close>\<close>

definition str_signed :: "int \<Rightarrow> string" where
  "str_signed i =
     (if i < 0 then CHR ''-'' # str_of_nat (nat (- i)) else CHR ''+'' # str_of_nat (nat i))"

text \<open>
  \<^verbatim>\<open>Decimal.__str__\<close>: the scientific string of the General Decimal Arithmetic
  specification. \<open>leftdigits\<close> is the number of coefficient digits left of the decimal
  point, \<open>dotplace\<close> where the point is written.
\<close>

definition decimal_str :: "decimal \<Rightarrow> string" where
  "decimal_str d =
     (let sign = (if dsign d then [CHR ''-''] else []);
          ds = str_of_nat (dcoeff d);
          leftdigits = dexp d + int (length ds);
          dotplace = (if dexp d \<le> 0 \<and> leftdigits > - 6 then leftdigits else 1);
          intpart = (if dotplace \<le> 0 then [CHR ''0'']
                     else if dotplace \<ge> int (length ds)
                       then ds @ replicate (nat (dotplace - int (length ds))) CHR ''0''
                     else take (nat dotplace) ds);
          fracpart = (if dotplace \<le> 0 then CHR ''.'' # replicate (nat (- dotplace)) CHR ''0'' @ ds
                      else if dotplace \<ge> int (length ds) then []
                      else CHR ''.'' # drop (nat dotplace) ds);
          ex = (if leftdigits = dotplace then []
                else CHR ''E'' # str_signed (leftdigits - dotplace))
      in sign @ intpart @ fracpart @ ex)"

text \<open>\<^verbatim>\<open>sep.join(xs)\<close>\<close>

fun join :: "string \<Rightarrow> string list \<Rightarrow> string" where
  "join sep [] = []"
| "join sep [x] = x"
| "join sep (x # y # ys) = x @ sep @ join sep (y # ys)"

definition hex_char :: "nat \<Rightarrow> char" where
  "hex_char d = ''0123456789abcdef'' ! d"

text \<open>
  \<^verbatim>\<open>repr\<close> of a string: single quotes unless the text has a single quote and no double
  quote; the quote and the backslash are escaped, control characters written as
  escapes. Bytes from 128 on (the UTF-8 of a non-ASCII character) are kept.
\<close>

definition repr_char :: "char \<Rightarrow> char \<Rightarrow> string" where
  "repr_char quote c =
     (if c = quote \<or> c = CHR 0x5C then [CHR 0x5C, c]
      else if c = CHR 0x09 then [CHR 0x5C, CHR ''t'']
      else if c = CHR 0x0A then [CHR 0x5C, CHR ''n'']
      else if c = CHR 0x0D then [CHR 0x5C, CHR ''r'']
      else if (of_char c :: nat) < 32 \<or> (of_char c :: nat) = 127
        then [CHR 0x5C, CHR ''x'', hex_char (of_char c div 16), hex_char (of_char c mod 16)]
      else [c])"

definition repr_str :: "string \<Rightarrow> string" where
  "repr_str s =
     (let quote = (if CHR 0x27 \<in> set s \<and> CHR 0x22 \<notin> set s then CHR 0x22 else CHR 0x27)
      in quote # concat (map (repr_char quote) s) @ [quote])"

text \<open>
  \<^verbatim>\<open>repr(v)\<close>, with the elements of a list, the items of a dict and the fields of a model
  instance as auxiliary functions.
\<close>

function (sequential) py_repr :: "pyval \<Rightarrow> string"
  and py_repr_list :: "pyval list \<Rightarrow> string list"
  and py_repr_items :: "(pyval \<times> pyval) list \<Rightarrow> string list"
  and py_repr_fields :: "(string \<times> pyval) list \<Rightarrow> string list" where
  "py_repr VNone = ''None''"
| "py_repr VUndefined = ''PydanticUndefined''"
| "py_repr (VBool b) = (if b then ''True'' else ''False'')"
| "py_repr (VInt i) = str_of_int i"
| "py_repr (VStr s) = repr_str s"
| "py_repr (VDecimal d) = ''Decimal('' @ [CHR 0x27] @ decimal_str d @ [CHR 0x27] @ '')''"
| "py_repr (VEnum c n v) = ''<'' @ c @ ''.'' @ n @ '': '' @ py_repr v @ ''>''"
| "py_repr (VList xs) = ''['' @ join '', '' (py_repr_list xs) @ '']''"
| "py_repr (VTuple xs) =
     ''('' @ join '', '' (py_repr_list xs) @ (if length xs = 1 then '',)'' else '')'')"
| "py_repr (VSet xs) =
     (if xs = [] then ''set()'' else ''{'' @ join '', '' (py_repr_list xs) @ ''}'')"
| "py_repr (VDict kvs) = ''{'' @ join '', '' (py_repr_items kvs) @ ''}''"
| "py_repr (VModel c fs) = c @ ''('' @ join '', '' (py_repr_fields fs) @ '')''"
| "py_repr_list [] = []"
| "py_repr_list (x # xs) = py_repr x # py_repr_list xs"
| "py_repr_items [] = []"
| "py_repr_items ((k, v) # kvs) = (py_repr k @ '': '' @ py_repr v) # py_repr_items kvs"
| "py_repr_fields [] = []"
| "py_repr_fields ((n, v) # fs) = (n @ ''='' @ py_repr v) # py_repr_fields fs"
  by pat_completeness auto
termination
  by (relation "measure (\<lambda>x. case x of
         Inl (Inl v) \<Rightarrow> size v
       | Inl (Inr xs) \<Rightarrow> size_list size xs
       | Inr (Inl kvs) \<Rightarrow> size_list (size_prod size size) kvs
       | Inr (Inr fs) \<Rightarrow> size_list (size_prod (\<lambda>x. 0) size) fs)") auto

text \<open>
  \<^verbatim>\<open>str(v)\<close>: the text itself for a string, \<^verbatim>\<open>Class.NAME\<close> for a member of a plain
  \<^verbatim>\<open>Enum\<close>, the scientific string of a decimal, the fields separated by blanks for a
  model instance, and \<^verbatim>\<open>repr(v)\<close> otherwise.
\<close>

fun py_str :: "pyval \<Rightarrow> string" where
  "py_str (VStr s) = s"
| "py_str (VDecimal d) = decimal_str d"
| "py_str (VEnum c n v) = c @ ''.'' @ n"
| "py_str (VModel c fs) = join '' '' (py_repr_fields fs)"
| "py_str v = py_repr v"


section \<open>The operator at the terminal\<close>

text \<open>
  A dict with string keys is the list of its items in insertion order:
  \<^verbatim>\<open>d[k] = v\<close> is \<^const>\<open>AList.update\<close>, which replaces the value of a present key in
  place and appends a new key at the end.
\<close>

type_synonym dict = "(string \<times> pyval) list"

text \<open>\<^verbatim>\<open>d.get(k)\<close> and \<^verbatim>\<open>d.get(k, dflt)\<close>\<close>

definition dict_get :: "dict \<Rightarrow> string \<Rightarrow> pyval \<Rightarrow> pyval" where
  "dict_get d k dflt = (case map_of d k of None \<Rightarrow> dflt | Some v \<Rightarrow> v)"

text \<open>
  What the wizard asks: the gate of \<^verbatim>\<open>OptionalHandler\<close> (field name and default answer),
  the repair question of \<^verbatim>\<open>validate_and_fix\<close> (default answer), its request for a new
  value (field name, message and default text), and the call of a handler's
  \<^verbatim>\<open>prompt\<close>. The wording of the questions is not modelled.
\<close>

datatype event =
    ConfigureAsked string bool
  | FixAsked bool
  | NewValueAsked string string string
  | HandlerPrompted handler FieldSpec pyval

text \<open>
  The terminal: the answers the operator is going to give to the yes/no questions and
  to the text questions (\<open>None\<close> is a cancelled question, for which questionary's
  \<^verbatim>\<open>ask()\<close> returns \<^verbatim>\<open>None\<close>), and what has been asked so far. A question with no answer
  left never returns: the result \<open>None\<close> of the functions below.
\<close>

record world =
  confirm_answers :: "bool option list"
  text_answers :: "string option list"
  asked :: "event list"

definition ask_confirm :: "event \<Rightarrow> world \<Rightarrow> (bool option \<times> world) option" where
  "ask_confirm q w =
     (case confirm_answers w of
        [] \<Rightarrow> None
      | a # rest \<Rightarrow> Some (a, w\<lparr> confirm_answers := rest, asked := asked w @ [q] \<rparr>))"

definition ask_text :: "event \<Rightarrow> world \<Rightarrow> (string option \<times> world) option" where
  "ask_text q w =
     (case text_answers w of
        [] \<Rightarrow> None
      | a # rest \<Rightarrow> Some (a, w\<lparr> text_answers := rest, asked := asked w @ [q] \<rparr>))"

text \<open>
  The \<^verbatim>\<open>prompt\<close> methods of the handlers, as \<^verbatim>\<open>_call_handler\<close> reaches them and as
  \<^verbatim>\<open>OptionalHandler.prompt\<close> calls the one of the inner handler, with the descriptor and
  the default.
\<close>

type_synonym prompts = "handler \<Rightarrow> FieldSpec \<Rightarrow> pyval \<Rightarrow> world \<Rightarrow> (pyval \<times> world) option"

definition call_prompt :: "prompts \<Rightarrow> handler \<Rightarrow> FieldSpec \<Rightarrow> pyval \<Rightarrow> world \<Rightarrow> (pyval \<times> world) option" where
  "call_prompt prompt h spec dflt w =
     prompt h spec dflt (w\<lparr> asked := asked w @ [HandlerPrompted h spec dflt] \<rparr>)"

section \<open>type_handlers.py: the gate of OptionalHandler\<close>

text \<open>The non-optional descriptor that \<^verbatim>\<open>OptionalHandler.prompt\<close> builds.\<close>

definition optional_inner_spec :: "FieldSpec \<Rightarrow> FieldSpec" where
  "optional_inner_spec spec =
     (FieldSpec_init (name spec))\<lparr>
        annotation := (if inner_type spec \<noteq> None then inner_type spec else annotation spec),
        inner_type := inner_type spec,
        description := description spec,
        constraints := constraints spec,
        is_required := False,
        is_optional := False,
        is_enum := is_enum spec,
        is_literal := is_literal spec,
        is_pydantic_model := is_pydantic_model spec,
        is_list := is_list spec,
        is_set := is_set spec,
        is_dict := is_dict spec,
        is_union := is_union spec,
        union_types := union_types spec,
        key_type := key_type spec,
        value_type := value_type spec \<rparr>"

definition OptionalHandler_prompt ::
  "prompts \<Rightarrow> FieldSpec \<Rightarrow> pyval \<Rightarrow> TypeHandlerRegistry option \<Rightarrow> world \<Rightarrow> (pyval \<times> world) option" where
  "OptionalHandler_prompt prompt spec dflt registry w =
     (case ask_confirm (ConfigureAsked (name spec) (dflt \<noteq> VNone)) w of
        None \<Rightarrow> None
      | Some (should_configure, w1) \<Rightarrow>
          if should_configure \<noteq> Some True then Some (VNone, w1)
          else
            (let inner_spec = optional_inner_spec spec
             in case registry of
                  None \<Rightarrow> Some (VNone, w1)
                | Some reg \<Rightarrow>
                    (case get_handler reg inner_spec of
                       None \<Rightarrow> Some (VNone, w1)
                     | Some h \<Rightarrow> call_prompt prompt h inner_spec dflt w1)))"

section \<open>prompts.py\<close>

text \<open>The effective default of a field, as the loop of \<^verbatim>\<open>prompt_model\<close> computes it.\<close>

definition effective_default :: "dict \<Rightarrow> FieldSpec \<Rightarrow> pyval" where
  "effective_default defaults spec =
     (let effective_default = dict_get defaults (name spec) VNone
      in if effective_default = VNone then
           (if default spec \<noteq> VNone \<and> py_str (default spec) \<noteq> ''PydanticUndefined''
              then default spec
            else if default_factory spec \<noteq> None then
              (case the (default_factory spec) () of
                 Returned v \<Rightarrow> v
               | Raised e \<Rightarrow> VNone)
            else effective_default)
         else effective_default)"

fun prompt_specs ::
  "prompts \<Rightarrow> TypeHandlerRegistry \<Rightarrow> dict \<Rightarrow> FieldSpec list \<Rightarrow> dict \<Rightarrow> world \<Rightarrow> (dict \<times> world) option" where
  "prompt_specs prompt registry defaults [] result w = Some (result, w)"
| "prompt_specs prompt registry defaults (spec # specs) result w =
     (if \<not> is_init spec then prompt_specs prompt registry defaults specs result w
      else
        (let effective = effective_default defaults spec;
             h = prompt_model_handler registry spec
         in case call_prompt prompt h spec effective w of
              None \<Rightarrow> None
            | Some (v, w') \<Rightarrow>
                prompt_specs prompt registry defaults specs (AList.update (name spec) v result) w'))"

definition prompt_model ::
  "prompts \<Rightarrow> (string \<times> FieldInfo) list \<Rightarrow> dict option \<Rightarrow> TypeHandlerRegistry option \<Rightarrow> world
     \<Rightarrow> error + (dict \<times> world) option" where
  "prompt_model prompt model_fields defaults registry w =
     (let registry = (case registry of None \<Rightarrow> TypeHandlerRegistry_init | Some r \<Rightarrow> r);
          defaults = (case defaults of None \<Rightarrow> [] | Some d \<Rightarrow> d)
      in case introspect_model model_fields of
           Inl e \<Rightarrow> Inl e
         | Inr specs \<Rightarrow> Inr (prompt_specs prompt registry defaults specs [] w))"

section \<open>validation.py\<close>

text \<open>
  One entry of \<^verbatim>\<open>ValidationError.errors()\<close>: its location (strings and integers) and
  its message. Pydantic's entries always carry both keys, so the defaults of
  \<^verbatim>\<open>error.get\<close> are never taken.
\<close>

record ErrorDetails =
  loc :: "pyval list"
  msg :: string

text \<open>
  The \<^verbatim>\<open>for\<close> loop over the errors: every error with a location asks for a new value
  of its top-level field and stores the answer, unless the question was cancelled.
\<close>

fun repair_fields :: "ErrorDetails list \<Rightarrow> dict \<Rightarrow> world \<Rightarrow> (dict \<times> world) option" where
  "repair_fields [] data w = Some (data, w)"
| "repair_fields (e # es) data w =
     (case loc e of
        [] \<Rightarrow> repair_fields es data w
      | l # ls \<Rightarrow>
          (let field_name = py_str l
           in case ask_text (NewValueAsked field_name (msg e)
                               (py_str (dict_get data field_name (VStr [])))) w of
                None \<Rightarrow> None
              | Some (new_value, w') \<Rightarrow>
                  repair_fields es
                    (case new_value of None \<Rightarrow> data
                     | Some s \<Rightarrow> AList.update field_name (VStr s) data) w'))"

lemma repair_fields_confirm_answers:
  "repair_fields es data w = Some (data', w') \<Longrightarrow> confirm_answers w' = confirm_answers w"
proof (induction es arbitrary: data w)
  case Nil
  then show ?case by simp
next
  case (Cons e es)
  show ?case
  proof (cases "loc e")
    case Nil
    with Cons show ?thesis by simp
  next
    case (Cons l ls)
    with Cons.prems obtain a w1 d1 where
      a: "ask_text (NewValueAsked (py_str l) (msg e)
                      (py_str (dict_get data (py_str l) (VStr [])))) w = Some (a, w1)"
      and r: "repair_fields es d1 w1 = Some (data', w')"
      by (auto simp: Let_def split: option.splits)
    from a have "confirm_answers w1 = confirm_answers w"
      by (auto simp: ask_text_def split: list.splits)
    with Cons.IH[OF r] show ?thesis by simp
  qed
qed

text \<open>
  \<^verbatim>\<open>validate_and_fix\<close>, with the model's \<^verbatim>\<open>model_validate\<close> as a parameter: it returns
  the instance, or the errors of the \<^verbatim>\<open>ValidationError\<close> it raises. The result is the
  returned value (\<open>None\<close> for Python's \<^verbatim>\<open>None\<close>) with the dict, which the loop
  changes in place, and the terminal as they are at the return.
\<close>

function validate_and_fix ::
  "(dict \<Rightarrow> ErrorDetails list + pyval) \<Rightarrow> dict \<Rightarrow> world \<Rightarrow> (pyval option \<times> dict \<times> world) option" where
  "validate_and_fix model_validate data w =
     (case model_validate data of
        Inr inst \<Rightarrow> Some (Some inst, data, w)
      | Inl errors \<Rightarrow>
          (case ask_confirm (FixAsked True) w of
             None \<Rightarrow> None
           | Some (should_fix, w1) \<Rightarrow>
               if should_fix \<noteq> Some True then Some (None, data, w1)
               else
                 (case repair_fields errors data w1 of
                    None \<Rightarrow> None
                  | Some (data', w2) \<Rightarrow> validate_and_fix model_validate data' w2)))"
  by pat_completeness auto
termination
  apply (relation "measure (\<lambda>(mv, data, w). length (confirm_answers w))")
   apply simp
  apply (auto simp: ask_confirm_def split: list.splits dest!: repair_fields_confirm_answers)
  done

declare validate_and_fix.simps [simp del]

section \<open>serialization.py and the set handler\<close>

text \<open>\<^verbatim>\<open>SetHandler.serialize\<close>: \<^verbatim>\<open>list(value)\<close> lists a set in its iteration order.\<close>

fun SetHandler_serialize :: "pyval \<Rightarrow> pyval" where
  "SetHandler_serialize (VSet xs) = VList xs"
| "SetHandler_serialize v = v"

lemma size_list_insort_key:
  "size_list f (insort_key k x xs) = Suc (f x + size_list f xs)"
  by (induction xs) auto

lemma size_list_sort_key: "size_list f (sort_key k xs) = size_list f xs"
  by (induction xs) (auto simp: size_list_insort_key)

text \<open>
  \<^verbatim>\<open>_prepare_value\<close> and \<^verbatim>\<open>_prepare_dict\<close>. \<^verbatim>\<open>sorted(value, key=str)\<close> is the stable
  \<^const>\<open>sort_key\<close> on the byte order of the string forms. A model instance is prepared
  through \<^verbatim>\<open>model_dump()\<close>, the dict of its fields; that a class can leave fields out
  of its dump is not modelled here.
\<close>

function (sequential) prepare_value :: "pyval \<Rightarrow> pyval"
  and prepare_list :: "pyval list \<Rightarrow> pyval list"
  and prepare_items :: "(pyval \<times> pyval) list \<Rightarrow> (pyval \<times> pyval) list"
  and prepare_fields :: "(string \<times> pyval) list \<Rightarrow> (pyval \<times> pyval) list" where
  "prepare_value VNone = VNone"
| "prepare_value (VModel c fs) = VDict (prepare_fields fs)"
| "prepare_value (VDict kvs) = VDict (prepare_items kvs)"
| "prepare_value (VList xs) = VList (prepare_list xs)"
| "prepare_value (VTuple xs) = VList (prepare_list xs)"
| "prepare_value (VSet xs) = VList (prepare_list (sort_key py_str xs))"
| "prepare_value (VDecimal d) = VStr (decimal_str d)"
| "prepare_value (VEnum c n v) = v"
| "prepare_value v = v"
| "prepare_list [] = []"
| "prepare_list (x # xs) = prepare_value x # prepare_list xs"
| "prepare_items [] = []"
| "prepare_items ((k, v) # kvs) = (k, prepare_value v) # prepare_items kvs"
| "prepare_fields [] = []"
| "prepare_fields ((n, v) # fs) = (VStr n, prepare_value v) # prepare_fields fs"
  by pat_completeness auto
termination
  by (relation "measure (\<lambda>x. case x of
         Inl (Inl v) \<Rightarrow> size v
       | Inl (Inr xs) \<Rightarrow> size_list size xs
       | Inr (Inl kvs) \<Rightarrow> size_list (size_prod size size) kvs
       | Inr (Inr fs) \<Rightarrow> size_list (size_prod (\<lambda>x. 0) size) fs)")
     (auto simp: size_list_sort_key)

section \<open>Python's conversions\<close>





























text \<open>
  \<^verbatim>\<open>BaseModel.model_dump()\<close> with its default arguments: the dict of the fields, without
  those that the class declares with \<^verbatim>\<open>exclude=True\<close>, in which every model instance,
  also inside a list, tuple, set or dict, is dumped in turn. Enum members and decimals
  stay as they are. \<open>excluded c n\<close> says that the class \<open>c\<close> declares its field \<open>n\<close>
  with \<^verbatim>\<open>exclude=True\<close>. Computed fields and serializers written for a class are not
  modelled.
\<close>

function (sequential) dump_value :: "(string \<Rightarrow> string \<Rightarrow> bool) \<Rightarrow> pyval \<Rightarrow> pyval"
  and dump_list :: "(string \<Rightarrow> string \<Rightarrow> bool) \<Rightarrow> pyval list \<Rightarrow> pyval list"
  and dump_items ::
    "(string \<Rightarrow> string \<Rightarrow> bool) \<Rightarrow> (pyval \<times> pyval) list \<Rightarrow> (pyval \<times> pyval) list"
  and dump_fields ::
    "(string \<Rightarrow> string \<Rightarrow> bool) \<Rightarrow> string \<Rightarrow> (string \<times> pyval) list \<Rightarrow> (pyval \<times> pyval) list"
  where
  "dump_value excluded (VModel c fs) = VDict (dump_fields excluded c fs)"
| "dump_value excluded (VDict kvs) = VDict (dump_items excluded kvs)"
| "dump_value excluded (VList xs) = VList (dump_list excluded xs)"
| "dump_value excluded (VTuple xs) = VTuple (dump_list excluded xs)"
| "dump_value excluded (VSet xs) = VSet (dump_list excluded xs)"
| "dump_value excluded v = v"
| "dump_list excluded [] = []"
| "dump_list excluded (x # xs) = dump_value excluded x # dump_list excluded xs"
| "dump_items excluded [] = []"
| "dump_items excluded ((k, v) # kvs) = (k, dump_value excluded v) # dump_items excluded kvs"
| "dump_fields excluded c [] = []"
| "dump_fields excluded c ((n, v) # fs) =
     (if excluded c n then dump_fields excluded c fs
      else (VStr n, dump_value excluded v) # dump_fields excluded c fs)"
  by pat_completeness auto
termination
  by (relation "measure (\<lambda>x. case x of
         Inl (Inl (ex, v)) \<Rightarrow> size v
       | Inl (Inr (ex, xs)) \<Rightarrow> size_list size xs
       | Inr (Inl (ex, kvs)) \<Rightarrow> size_list (size_prod size size) kvs
       | Inr (Inr (ex, c, fs)) \<Rightarrow> size_list (size_prod (\<lambda>x. 0) size) fs)") auto


section \<open>type_handlers.py: serialising and deserialising\<close>
























section \<open>Verified properties\<close>

subsection \<open>Type resolution\<close>

lemma size_get_args: "a \<in> set (get_args ann) \<Longrightarrow> size a < size ann"
proof (cases ann)
  case (Alias orig as)
  assume "a \<in> set (get_args ann)"
  with Alias have "a \<in> set as" by simp
  then have "size a \<le> size_list size as" by (rule size_list_estimation') simp
  with Alias show ?thesis by simp
qed simp_all

lemma resolve_type_returns: "\<exists>spec. resolve_type ann = Inr spec"
proof (induction ann rule: measure_induct_rule[of size])
  case (less ann)
  let ?nn = "filter (\<lambda>a. \<not> is_none_type a) (get_args ann)"
  have IH: "\<exists>s. resolve_type (?nn ! 0) = Inr s" if "length ?nn = 1"
  proof -
    from that have "?nn ! 0 \<in> set ?nn" by (simp del: set_filter)
    then have "?nn ! 0 \<in> set (get_args ann)" by simp
    then have "size (?nn ! 0) < size ann" by (rule size_get_args)
    then show ?thesis by (rule less)
  qed
  show ?case
    apply (subst resolve_type.simps)
    using IH
    apply (auto simp: Let_def py_index_def split: sum.splits if_splits)
    done
qed

text \<open>
  C9. \<^verbatim>\<open>_resolve_type\<close> is total: on every annotation it returns a descriptor and
  raises nothing (no index it takes is out of range, and the recursion into the one
  alternative of an optional ends). Being a function of the annotation alone, it
  returns structurally equal descriptors on equal annotations.
\<close>

theorem resolve_type_total: "\<exists>spec. resolve_type ann = Inr spec"
  by (rule resolve_type_returns)

subsection \<open>The registry\<close>

lemma get_handler_Some_iff:
  "(get_handler reg spec = Some h) =
     (\<exists>i<length reg. reg ! i = h \<and> can_handle h spec \<and> (\<forall>j<i. \<not> can_handle (reg ! j) spec))"
proof (induction reg)
  case Nil
  then show ?case by simp
next
  case (Cons a reg)
  show ?case
  proof (cases "can_handle a spec")
    case True
    have "(\<exists>i<length (a # reg). (a # reg) ! i = h \<and> can_handle h spec
             \<and> (\<forall>j<i. \<not> can_handle ((a # reg) ! j) spec)) = (a = h)"
    proof
      assume "\<exists>i<length (a # reg). (a # reg) ! i = h \<and> can_handle h spec
                \<and> (\<forall>j<i. \<not> can_handle ((a # reg) ! j) spec)"
      then obtain i where i: "i < length (a # reg)" "(a # reg) ! i = h"
          "\<forall>j<i. \<not> can_handle ((a # reg) ! j) spec"
        by blast
      have "i = 0"
      proof (rule ccontr)
        assume "i \<noteq> 0"
        then have "0 < i" by simp
        with i(3) have "\<not> can_handle ((a # reg) ! 0) spec" by blast
        with True show False by simp
      qed
      with i(2) show "a = h" by simp
    next
      assume "a = h"
      with True show "\<exists>i<length (a # reg). (a # reg) ! i = h \<and> can_handle h spec
                        \<and> (\<forall>j<i. \<not> can_handle ((a # reg) ! j) spec)"
        by (intro exI[of _ 0]) simp
    qed
    with True show ?thesis by simp
  next
    case False
    have "(\<exists>i<length (a # reg). (a # reg) ! i = h \<and> can_handle h spec
             \<and> (\<forall>j<i. \<not> can_handle ((a # reg) ! j) spec))
        = (\<exists>i<length reg. reg ! i = h \<and> can_handle h spec
             \<and> (\<forall>j<i. \<not> can_handle (reg ! j) spec))"
      (is "?L = ?R")
    proof
      assume ?L
      then obtain i where i: "i < length (a # reg)" "(a # reg) ! i = h" "can_handle h spec"
         "\<forall>j<i. \<not> can_handle ((a # reg) ! j) spec" by blast
      with False obtain k where k: "i = Suc k" by (cases i) auto
      have "\<forall>j<k. \<not> can_handle (reg ! j) spec"
      proof (intro allI impI)
        fix j assume "j < k"
        then have "Suc j < i" using k by simp
        with i(4) have "\<not> can_handle ((a # reg) ! Suc j) spec" by blast
        then show "\<not> can_handle (reg ! j) spec" by simp
      qed
      with i k show ?R by (intro exI[of _ k]) simp
    next
      assume ?R
      then obtain k where k: "k < length reg" "reg ! k = h" "can_handle h spec"
         "\<forall>j<k. \<not> can_handle (reg ! j) spec" by blast
      have "\<forall>j<Suc k. \<not> can_handle ((a # reg) ! j) spec"
      proof (intro allI impI)
        fix j assume "j < Suc k"
        then show "\<not> can_handle ((a # reg) ! j) spec"
          using False k(4) by (cases j) auto
      qed
      with k show ?L by (intro exI[of _ "Suc k"]) simp
    qed
    with False Cons show ?thesis by simp
  qed
qed

lemma get_handler_append:
  "get_handler (reg @ [c]) spec =
     (case get_handler reg spec of Some h \<Rightarrow> Some h
      | None \<Rightarrow> if can_handle c spec then Some c else None)"
  by (induction reg) auto

text \<open>
  C4. \<^verbatim>\<open>get_handler\<close> returns the first handler, in the order of the registry's list,
  whose \<^verbatim>\<open>can_handle\<close> accepts the descriptor. \<^verbatim>\<open>register\<close> with \<^verbatim>\<open>priority=True\<close>
  puts the handler in front, with \<^verbatim>\<open>priority=False\<close> at the end. So a handler
  registered in front that accepts a descriptor is the one selected, whatever the
  built-in handlers accept, and a handler registered at the end is selected only where
  no other handler accepts.
\<close>

theorem get_handler_first_match:
  "((get_handler reg spec = Some h) =
      (\<exists>i<length reg. reg ! i = h \<and> can_handle h spec
         \<and> (\<forall>j<i. \<not> can_handle (reg ! j) spec)))
   \<and> register c True reg = c # reg
   \<and> register c False reg = reg @ [c]
   \<and> (can_handle c spec \<longrightarrow> get_handler (register c True reg) spec = Some c)
   \<and> get_handler (register c False reg) spec =
       (case get_handler reg spec of Some h' \<Rightarrow> Some h'
        | None \<Rightarrow> if can_handle c spec then Some c else None)"
  by (simp add: get_handler_Some_iff register_def get_handler_append)

theorem get_handler_first_match_witness:
  "can_handle (CustomHandler ''custom'' (\<lambda>s. inner_type s = Some IntT))
       ((FieldSpec_init ''f'')\<lparr>inner_type := Some IntT\<rparr>)
   \<and> get_handler TypeHandlerRegistry_init ((FieldSpec_init ''f'')\<lparr>inner_type := Some IntT\<rparr>)
       = Some IntHandler
   \<and> get_handler (register (CustomHandler ''custom'' (\<lambda>s. inner_type s = Some IntT)) True
         TypeHandlerRegistry_init) ((FieldSpec_init ''f'')\<lparr>inner_type := Some IntT\<rparr>)
       = Some (CustomHandler ''custom'' (\<lambda>s. inner_type s = Some IntT))"
  using get_handler_first_match
    [of TypeHandlerRegistry_init "(FieldSpec_init ''f'')\<lparr>inner_type := Some IntT\<rparr>" IntHandler
        "CustomHandler ''custom'' (\<lambda>s. inner_type s = Some IntT)"]
  by (simp add: TypeHandlerRegistry_init_def FieldSpec_init_def)

text \<open>
  C1, as stated, fails: the last handler of the seed list, \<^verbatim>\<open>StrHandler\<close>, accepts a
  descriptor only when its inner type is \<^verbatim>\<open>str\<close>. The descriptor that
  \<^verbatim>\<open>_resolve_type\<close> returns for an unrecognised plain type such as \<^verbatim>\<open>bytes\<close> is accepted
  by no seed handler, and \<^verbatim>\<open>get_handler\<close> returns \<^verbatim>\<open>None\<close> for it.
\<close>

theorem get_handler_bytes_counterexample:
  "map_sum id (\<lambda>spec. (can_handle StrHandler spec, get_handler TypeHandlerRegistry_init spec))
     (resolve_type (OtherT ''bytes'')) = Inr (False, None)"
  by (simp add: resolve_type.simps FieldSpec_init_def TypeHandlerRegistry_init_def)

text \<open>
  C1, amended. On the default registry \<^verbatim>\<open>get_handler\<close> returns \<^verbatim>\<open>None\<close> exactly for the
  descriptors with no shape flag set and an inner type that is none of \<^verbatim>\<open>bool\<close>,
  \<^verbatim>\<open>Decimal\<close>, \<^verbatim>\<open>int\<close>, \<^verbatim>\<open>float\<close>, \<^verbatim>\<open>datetime\<close>, \<^verbatim>\<open>time\<close>, \<^verbatim>\<open>timedelta\<close> and \<^verbatim>\<open>str\<close>;
  for every other descriptor it returns a handler. The string fallback is applied by
  \<^verbatim>\<open>prompt_model\<close>, which uses \<^verbatim>\<open>StrHandler\<close> where the registry returns \<^verbatim>\<open>None\<close>.
\<close>

theorem default_registry_get_handler:
  "((get_handler TypeHandlerRegistry_init spec = None) =
      (\<not> is_optional spec \<and> \<not> is_union spec \<and> \<not> is_list spec \<and> \<not> is_set spec
       \<and> \<not> is_dict spec \<and> \<not> is_enum spec \<and> \<not> is_literal spec \<and> \<not> is_pydantic_model spec
       \<and> inner_type spec \<notin> Some ` {BoolT, DecimalT, IntT, FloatT, DatetimeT, TimeT,
                                     TimedeltaT, StrT}))
   \<and> (get_handler TypeHandlerRegistry_init spec = None
        \<longrightarrow> prompt_model_handler TypeHandlerRegistry_init spec = StrHandler)"
  by (auto simp: TypeHandlerRegistry_init_def prompt_model_handler_def)

theorem default_registry_get_handler_witness:
  "get_handler TypeHandlerRegistry_init ((FieldSpec_init ''f'')\<lparr>inner_type := Some (OtherT ''bytes'')\<rparr>)
     = None
   \<and> prompt_model_handler TypeHandlerRegistry_init
       ((FieldSpec_init ''f'')\<lparr>inner_type := Some (OtherT ''bytes'')\<rparr>) = StrHandler"
  using default_registry_get_handler
    [of "(FieldSpec_init ''f'')\<lparr>inner_type := Some (OtherT ''bytes'')\<rparr>"]
  by (simp add: FieldSpec_init_def)

subsection \<open>Introspection of optional fields\<close>

lemma resolve_type_fresh:
  "resolve_type ann = Inr r \<Longrightarrow>
     is_required r \<and> default r = VUndefined \<and> default_factory r = None"
  apply (subst (asm) resolve_type.simps)
  apply (auto simp: Let_def py_index_def copy_inner_def FieldSpec_init_def
              split: sum.splits if_splits)
  done

lemma introspect_loop_mem:
  "introspect_loop fs acc = Inr specs \<Longrightarrow>
     (set acc \<subseteq> set specs) \<and>
     (\<forall>n fi s. (n, fi) \<in> set fs \<and> introspect_field n fi = Inr (Some s) \<longrightarrow> s \<in> set specs)"
proof (induction fs acc rule: introspect_loop.induct)
  case (1 specs')
  then show ?case by simp
next
  case (2 n field_info rest acc)
  show ?case
  proof (cases "introspect_field n field_info")
    case (Inl e)
    with "2.prems" show ?thesis by simp
  next
    case (Inr o1)
    show ?thesis
    proof (cases o1)
      case None
      with Inr "2.prems" "2.IH"(1) show ?thesis by auto
    next
      case (Some resolved)
      with Inr "2.prems" "2.IH"(2) show ?thesis by auto
    qed
  qed
qed

lemma introspect_loop_total: "\<exists>specs. introspect_loop fs acc = Inr specs"
proof (induction fs arbitrary: acc)
  case Nil
  then show ?case by simp
next
  case (Cons a fs)
  obtain n fi where a: "a = (n, fi)" by (cases a)
  show ?case
  proof (cases "fi_annotation fi")
    case None
    then show ?thesis using Cons a by (simp add: introspect_field_def)
  next
    case (Some ann)
    obtain r where "resolve_type ann = Inr r" using resolve_type_returns by blast
    then show ?thesis using Cons a Some by (simp add: introspect_field_def Let_def)
  qed
qed

text \<open>
  C7. A field of the model whose annotation resolves to an optional descriptor and that
  has neither a default nor a default factory is introspected, and its descriptor in
  the result of \<^verbatim>\<open>introspect_model\<close> is not required and has the default \<^verbatim>\<open>None\<close>.
\<close>

theorem introspect_optional_defaults_none:
  assumes "(n, fi) \<in> set model_fields" "fi_annotation fi = Some ann"
    "resolve_type ann = Inr r" "is_optional r"
    "fi_default fi = VUndefined" "fi_default_factory fi = None"
  shows "\<exists>specs s. introspect_model model_fields = Inr specs \<and> s \<in> set specs
           \<and> introspect_field n fi = Inr (Some s)
           \<and> name s = n \<and> is_optional s \<and> \<not> is_required s \<and> default s = VNone"
proof -
  obtain specs where specs: "introspect_model model_fields = Inr specs"
    using introspect_loop_total by (auto simp: introspect_model_def)
  from assms resolve_type_fresh[OF assms(3)]
  obtain s where s: "introspect_field n fi = Inr (Some s)" "name s = n" "is_optional s"
      "\<not> is_required s" "default s = VNone"
    by (auto simp: introspect_field_def Let_def)
  from specs s(1) assms(1) have "s \<in> set specs"
    using introspect_loop_mem[of model_fields "[]" specs] by (auto simp: introspect_model_def)
  with specs s show ?thesis by blast
qed

theorem introspect_optional_defaults_none_witness:
  "\<exists>specs s.
     introspect_model
       [(''nickname'', \<lparr> fi_annotation = Some (Alias UnionType [StrT, NoneType]),
            fi_default = VUndefined, fi_default_factory = None, fi_description = None,
            fi_metadata = [], fi_init = None, fi_frozen = None \<rparr>)] = Inr specs
     \<and> s \<in> set specs \<and> name s = ''nickname'' \<and> is_optional s \<and> \<not> is_required s
     \<and> default s = VNone"
proof -
  let ?ann = "Alias UnionType [StrT, NoneType]"
  let ?fi = "\<lparr> fi_annotation = Some ?ann, fi_default = VUndefined, fi_default_factory = None,
               fi_description = None, fi_metadata = [], fi_init = None, fi_frozen = None \<rparr>"
  obtain r where r: "resolve_type ?ann = Inr r" using resolve_type_returns by blast
  then have opt: "is_optional r"
    by (auto simp: resolve_type.simps[of ?ann] resolve_type.simps[of StrT] Let_def py_index_def
          copy_inner_def is_none_type_def FieldSpec_init_def)
  from introspect_optional_defaults_none[of "''nickname''" ?fi "[(''nickname'', ?fi)]" ?ann r] r opt
  show ?thesis by auto
qed

subsection \<open>The effective default\<close>

lemma effective_default_order:
  "py_str (default spec) \<noteq> ''PydanticUndefined'' \<or> default spec = VUndefined \<Longrightarrow>
   effective_default defaults spec =
     (if dict_get defaults (name spec) VNone \<noteq> VNone then dict_get defaults (name spec) VNone
      else if default spec \<noteq> VNone \<and> default spec \<noteq> VUndefined then default spec
      else case default_factory spec of
             None \<Rightarrow> VNone
           | Some f \<Rightarrow> (case f () of Returned v \<Rightarrow> v | Raised e \<Rightarrow> VNone))"
  by (auto simp: effective_default_def Let_def split: option.splits call_result.splits)

text \<open>
  C8 states that the effective default is the supplied default, else the declared
  default of the field, else the result of its factory. \<^verbatim>\<open>prompt_model\<close> recognises the
  missing declared default by its string form, so a field declared with the text
  \<^verbatim>\<open>"PydanticUndefined"\<close> as its default is taken to have none: with no supplied default
  and no factory its effective default is \<^verbatim>\<open>None\<close>, not the declared text.
\<close>

theorem effective_default_sentinel_text:
  "effective_default []
     ((FieldSpec_init ''marker'')\<lparr> inner_type := Some StrT,
        default := VStr ''PydanticUndefined'', is_required := False \<rparr>) = VNone"
  by (simp add: effective_default_def dict_get_def FieldSpec_init_def)

subsection \<open>The repair loop\<close>

lemma ask_text_asked: "ask_text q w = Some (a, w') \<Longrightarrow> asked w' = asked w @ [q]"
  by (auto simp: ask_text_def split: list.splits)

lemma ask_confirm_asked: "ask_confirm q w = Some (a, w') \<Longrightarrow> asked w' = asked w @ [q]"
  by (auto simp: ask_confirm_def split: list.splits)

lemma ask_confirm_answers:
  "ask_confirm q w = Some (a, w') \<Longrightarrow> confirm_answers w = a # confirm_answers w'"
  by (auto simp: ask_confirm_def split: list.splits)

text \<open>One round of the loop: a failed validation, the answer yes and the repair pass.\<close>

lemma validate_and_fix_round:
  "mv data = Inl errs \<Longrightarrow> ask_confirm (FixAsked True) w = Some (Some True, w1) \<Longrightarrow>
   repair_fields errs data w1 = Some (data', w2) \<Longrightarrow>
   validate_and_fix mv data w = validate_and_fix mv data' w2"
  by (simp add: validate_and_fix.simps[of mv data])

lemma validate_and_fix_declined:
  "mv data = Inl errs \<Longrightarrow> ask_confirm (FixAsked True) w = Some (a, w1) \<Longrightarrow> a \<noteq> Some True \<Longrightarrow>
   validate_and_fix mv data w = Some (None, data, w1)"
  by (simp add: validate_and_fix.simps[of mv data])

text \<open>
  What a return says about the run: the yes/no answers it consumed are a run of yes,
  followed, when the result is \<^verbatim>\<open>None\<close>, by one answer that is not yes, given to the
  repair question asked last.
\<close>

lemma validate_and_fix_result:
  "validate_and_fix mv data w = Some (r, d, w') \<Longrightarrow>
     (case r of
        Some inst \<Rightarrow> mv d = Inr inst
          \<and> (\<exists>k. confirm_answers w = replicate k (Some True) @ confirm_answers w')
      | None \<Rightarrow> (\<exists>errs. mv d = Inl errs)
          \<and> (\<exists>k a. confirm_answers w = replicate k (Some True) @ a # confirm_answers w'
                    \<and> a \<noteq> Some True)
          \<and> (\<exists>pre. asked w' = pre @ [FixAsked True]))"
proof (induction mv data w rule: validate_and_fix.induct)
  case (1 mv data w)
  show ?case
  proof (cases "mv data")
    case (Inr inst)
    with "1.prems" have eq: "r = Some inst" "d = data" "w' = w"
      by (auto simp: validate_and_fix.simps)
    have "confirm_answers w = replicate 0 (Some True) @ confirm_answers w" by simp
    then have "\<exists>k. confirm_answers w = replicate k (Some True) @ confirm_answers w" by blast
    with eq Inr show ?thesis by simp
  next
    case (Inl errs)
    with "1.prems" obtain a w1 where ask: "ask_confirm (FixAsked True) w = Some (a, w1)"
      by (auto simp: validate_and_fix.simps split: option.splits)
    show ?thesis
    proof (cases "a = Some True")
      case False
      with Inl ask "1.prems" have eq: "r = None" "d = data" "w' = w1"
        by (auto simp: validate_and_fix.simps)
      from ask_confirm_answers[OF ask] False
      have "confirm_answers w = replicate 0 (Some True) @ a # confirm_answers w1 \<and> a \<noteq> Some True"
        by simp
      then have "\<exists>k b. confirm_answers w = replicate k (Some True) @ b # confirm_answers w1
                        \<and> b \<noteq> Some True"
        by blast
      moreover from ask_confirm_asked[OF ask] have "\<exists>pre. asked w1 = pre @ [FixAsked True]"
        by blast
      ultimately show ?thesis using eq Inl by simp
    next
      case True
      with Inl ask "1.prems" obtain data' w2 where
        rep: "repair_fields errs data w1 = Some (data', w2)"
        and rec: "validate_and_fix mv data' w2 = Some (r, d, w')"
        by (auto simp: validate_and_fix.simps split: option.splits)
      from ask_confirm_answers[OF ask] repair_fields_confirm_answers[OF rep] True
      have ca: "confirm_answers w = Some True # confirm_answers w2" by simp
      from "1.IH"[OF Inl ask refl _ rep refl rec] True
      have IH: "case r of
          Some inst \<Rightarrow> mv d = Inr inst
            \<and> (\<exists>k. confirm_answers w2 = replicate k (Some True) @ confirm_answers w')
        | None \<Rightarrow> (\<exists>errs. mv d = Inl errs)
            \<and> (\<exists>k a. confirm_answers w2 = replicate k (Some True) @ a # confirm_answers w'
                      \<and> a \<noteq> Some True)
            \<and> (\<exists>pre. asked w' = pre @ [FixAsked True])"
        by simp
      show ?thesis
      proof (cases r)
        case None
        with IH obtain k b where
          kb: "confirm_answers w2 = replicate k (Some True) @ b # confirm_answers w'"
            "b \<noteq> Some True"
          and rest: "\<exists>errs. mv d = Inl errs" "\<exists>pre. asked w' = pre @ [FixAsked True]"
          by auto
        from ca kb have
          "confirm_answers w = replicate (Suc k) (Some True) @ b # confirm_answers w'
             \<and> b \<noteq> Some True"
          by simp
        then have "\<exists>k b. confirm_answers w = replicate k (Some True) @ b # confirm_answers w'
                          \<and> b \<noteq> Some True"
          by blast
        with None rest show ?thesis by simp
      next
        case (Some inst)
        with IH obtain k where
          k: "confirm_answers w2 = replicate k (Some True) @ confirm_answers w'"
          and v: "mv d = Inr inst"
          by auto
        from ca k have "confirm_answers w = replicate (Suc k) (Some True) @ confirm_answers w'"
          by simp
        then have "\<exists>k. confirm_answers w = replicate k (Some True) @ confirm_answers w'"
          by blast
        with Some v show ?thesis by simp
      qed
    qed
  qed
qed

text \<open>
  C5. When the validation of the current map succeeds, \<^verbatim>\<open>validate_and_fix\<close> returns the
  instance at once. When it fails and the operator does not answer yes to the repair
  question, it returns \<^verbatim>\<open>None\<close>. When it fails and the operator answers yes, the errors
  are repaired and the loop starts again on the repaired map, whatever the number of
  rounds: the call is the call on the repaired map. And whenever it returns, it returns
  either the instance that validates the map as it is then, every repair question of
  the run having been answered with yes, or \<^verbatim>\<open>None\<close> after a failed validation of that
  map and a repair question, the last thing asked, that was the first of the run not
  answered with yes.
\<close>

theorem validate_and_fix_outcomes:
  "(model_validate data = Inr inst \<longrightarrow>
      validate_and_fix model_validate data w = Some (Some inst, data, w))
   \<and> (model_validate dataN = Inl errsN \<and> ask_confirm (FixAsked True) wN = Some (a, wNa) \<and> a \<noteq> Some True
        \<longrightarrow> validate_and_fix model_validate dataN wN = Some (None, dataN, wNa))
   \<and> (model_validate dataY = Inl errsY \<and> ask_confirm (FixAsked True) wY = Some (Some True, wYa)
       \<and> repair_fields errsY dataY wYa = Some (dataYr, wYb)
        \<longrightarrow> validate_and_fix model_validate dataY wY = validate_and_fix model_validate dataYr wYb)
   \<and> (validate_and_fix model_validate dataR wR = Some (r, d, wRa) \<longrightarrow>
        (case r of
           Some inst' \<Rightarrow> model_validate d = Inr inst'
             \<and> (\<exists>k. confirm_answers wR = replicate k (Some True) @ confirm_answers wRa)
         | None \<Rightarrow> (\<exists>errs. model_validate d = Inl errs)
             \<and> (\<exists>k a'. confirm_answers wR = replicate k (Some True) @ a' # confirm_answers wRa
                        \<and> a' \<noteq> Some True)
             \<and> (\<exists>pre. asked wRa = pre @ [FixAsked True])))"
proof (intro conjI impI)
  assume "model_validate data = Inr inst"
  then show "validate_and_fix model_validate data w = Some (Some inst, data, w)"
    by (simp add: validate_and_fix.simps)
next
  assume "model_validate dataN = Inl errsN \<and> ask_confirm (FixAsked True) wN = Some (a, wNa)
            \<and> a \<noteq> Some True"
  then show "validate_and_fix model_validate dataN wN = Some (None, dataN, wNa)"
    by (simp add: validate_and_fix_declined)
next
  assume "model_validate dataY = Inl errsY
            \<and> ask_confirm (FixAsked True) wY = Some (Some True, wYa)
            \<and> repair_fields errsY dataY wYa = Some (dataYr, wYb)"
  then show "validate_and_fix model_validate dataY wY
               = validate_and_fix model_validate dataYr wYb"
    by (simp add: validate_and_fix_round)
next
  assume "validate_and_fix model_validate dataR wR = Some (r, d, wRa)"
  then show "case r of
           Some inst' \<Rightarrow> model_validate d = Inr inst'
             \<and> (\<exists>k. confirm_answers wR = replicate k (Some True) @ confirm_answers wRa)
         | None \<Rightarrow> (\<exists>errs. model_validate d = Inl errs)
             \<and> (\<exists>k a'. confirm_answers wR = replicate k (Some True) @ a' # confirm_answers wRa
                        \<and> a' \<noteq> Some True)
             \<and> (\<exists>pre. asked wRa = pre @ [FixAsked True])"
    by (rule validate_and_fix_result)
qed

theorem validate_and_fix_outcomes_witness:
  "(let mv = (\<lambda>d. if map_of d ''count'' = Some (VStr ''5'')
                    then Inr (VModel ''Config'' [(''count'', VInt 5)])
                    else Inl [\<lparr> loc = [VStr ''count''], msg = ''not an integer'' \<rparr>])
    in validate_and_fix mv [(''count'', VStr ''5'')]
           \<lparr> confirm_answers = [], text_answers = [], asked = [] \<rparr>
         = Some (Some (VModel ''Config'' [(''count'', VInt 5)]), [(''count'', VStr ''5'')],
                 \<lparr> confirm_answers = [], text_answers = [], asked = [] \<rparr>)
     \<and> validate_and_fix mv [(''count'', VStr ''x'')]
           \<lparr> confirm_answers = [Some False], text_answers = [], asked = [] \<rparr>
         = Some (None, [(''count'', VStr ''x'')],
                 \<lparr> confirm_answers = [], text_answers = [], asked = [FixAsked True] \<rparr>)
     \<and> validate_and_fix mv [(''count'', VStr ''x'')]
           \<lparr> confirm_answers = [Some True, Some True], text_answers = [Some ''y'', Some ''5''],
              asked = [] \<rparr>
         = Some (Some (VModel ''Config'' [(''count'', VInt 5)]), [(''count'', VStr ''5'')],
                 \<lparr> confirm_answers = [], text_answers = [],
                    asked = [FixAsked True, NewValueAsked ''count'' ''not an integer'' ''x'',
                             FixAsked True, NewValueAsked ''count'' ''not an integer'' ''y''] \<rparr>)
     \<and> mv [(''count'', VStr ''5'')] = Inr (VModel ''Config'' [(''count'', VInt 5)])
     \<and> (\<exists>k. [Some True, Some True] = replicate k (Some True)))"
proof -
  let ?e = "\<lparr> loc = [VStr ''count''], msg = ''not an integer'' \<rparr>"
  let ?inst = "VModel ''Config'' [(''count'', VInt 5)]"
  let ?mv = "\<lambda>d. if map_of d ''count'' = Some (VStr ''5'') then Inr ?inst else Inl [?e]"
  let ?dx = "[(''count'', VStr ''x'')]" and ?dy = "[(''count'', VStr ''y'')]"
  let ?dz = "[(''count'', VStr ''5'')]"
  let ?qx = "NewValueAsked ''count'' ''not an integer'' ''x''"
  let ?qy = "NewValueAsked ''count'' ''not an integer'' ''y''"
  let ?idle = "\<lparr> confirm_answers = [], text_answers = [], asked = [] \<rparr>"
  let ?wN = "\<lparr> confirm_answers = [Some False], text_answers = [], asked = [] \<rparr>"
  let ?wNa = "\<lparr> confirm_answers = [], text_answers = [], asked = [FixAsked True] \<rparr>"
  let ?wA = "\<lparr> confirm_answers = [Some True, Some True],
               text_answers = [Some ''y'', Some ''5''], asked = [] \<rparr>"
  let ?wAa = "\<lparr> confirm_answers = [Some True], text_answers = [Some ''y'', Some ''5''],
                asked = [FixAsked True] \<rparr>"
  let ?wB = "\<lparr> confirm_answers = [Some True], text_answers = [Some ''5''],
               asked = [FixAsked True, ?qx] \<rparr>"
  let ?wBa = "\<lparr> confirm_answers = [], text_answers = [Some ''5''],
                asked = [FixAsked True, ?qx, FixAsked True] \<rparr>"
  let ?wC = "\<lparr> confirm_answers = [], text_answers = [],
               asked = [FixAsked True, ?qx, FixAsked True, ?qy] \<rparr>"
  note first = validate_and_fix_outcomes[where model_validate = ?mv
      and data = ?dz and inst = ?inst and w = ?idle
      and dataN = ?dx and errsN = "[?e]" and wN = ?wN and a = "Some False" and wNa = ?wNa
      and dataY = ?dx and errsY = "[?e]" and wY = ?wA and wYa = ?wAa
      and dataYr = ?dy and wYb = ?wB
      and dataR = ?dx and wR = ?wA and r = "Some ?inst" and d = ?dz and wRa = ?wC]
  note second = validate_and_fix_outcomes[where model_validate = ?mv
      and data = ?dz and inst = ?inst and w = ?wC
      and dataN = ?dx and errsN = "[?e]" and wN = ?wN and a = "Some False" and wNa = ?wNa
      and dataY = ?dy and errsY = "[?e]" and wY = ?wB and wYa = ?wBa
      and dataYr = ?dz and wYb = ?wC
      and dataR = ?dx and wR = ?wA and r = "Some ?inst" and d = ?dz and wRa = ?wC]
  have v: "?mv ?dz = Inr ?inst" "?mv ?dx = Inl [?e]" "?mv ?dy = Inl [?e]"
    by simp_all
  have q: "ask_confirm (FixAsked True) ?wN = Some (Some False, ?wNa)"
    "ask_confirm (FixAsked True) ?wA = Some (Some True, ?wAa)"
    "ask_confirm (FixAsked True) ?wB = Some (Some True, ?wBa)"
    by (simp_all add: ask_confirm_def)
  have p: "repair_fields [?e] ?dx ?wAa = Some (?dy, ?wB)"
    "repair_fields [?e] ?dy ?wBa = Some (?dz, ?wC)"
    by (simp_all add: ask_text_def dict_get_def Let_def)
  from first v q have r0: "validate_and_fix ?mv ?dz ?idle = Some (Some ?inst, ?dz, ?idle)"
    and rN: "validate_and_fix ?mv ?dx ?wN = Some (None, ?dx, ?wNa)"
    by (simp_all del: map_of.simps)
  from second v q p have "validate_and_fix ?mv ?dy ?wB = Some (Some ?inst, ?dz, ?wC)"
    by (simp del: map_of.simps)
  with first v q p have rA: "validate_and_fix ?mv ?dx ?wA = Some (Some ?inst, ?dz, ?wC)"
    by (simp del: map_of.simps)
  with first have "\<exists>k. [Some True, Some True] = replicate k (Some True)"
    by (simp del: map_of.simps)
  with r0 rN rA v show ?thesis
    unfolding Let_def by (simp del: map_of.simps)
qed

lemma repair_fields_asked_mono:
  "repair_fields es data w = Some (data', w') \<Longrightarrow> set (asked w) \<subseteq> set (asked w')"
proof (induction es arbitrary: data w)
  case Nil
  then show ?case by simp
next
  case (Cons e es)
  show ?case
  proof (cases "loc e")
    case Nil
    with Cons show ?thesis by simp
  next
    case (Cons l ls)
    with Cons.prems obtain a w1 d1 where
      a: "ask_text (NewValueAsked (py_str l) (msg e)
                      (py_str (dict_get data (py_str l) (VStr [])))) w = Some (a, w1)"
      and r: "repair_fields es d1 w1 = Some (data', w')"
      by (auto simp: Let_def split: option.splits)
    from Cons.IH[OF r] ask_text_asked[OF a] show ?thesis by auto
  qed
qed

lemma repair_fields_frame:
  "repair_fields es data w = Some (data', w') \<Longrightarrow>
   (\<forall>m t. NewValueAsked k m t \<notin> set (asked w')) \<Longrightarrow> map_of data' k = map_of data k"
proof (induction es arbitrary: data w)
  case Nil
  then show ?case by simp
next
  case (Cons e es)
  show ?case
  proof (cases "loc e")
    case Nil
    with Cons show ?thesis by simp
  next
    case (Cons l ls)
    let ?q = "NewValueAsked (py_str l) (msg e) (py_str (dict_get data (py_str l) (VStr [])))"
    from Cons Cons.prems obtain a w1 where
      a: "ask_text ?q w = Some (a, w1)"
      and r: "repair_fields es (case a of None \<Rightarrow> data
                | Some s \<Rightarrow> AList.update (py_str l) (VStr s) data) w1 = Some (data', w')"
      by (auto simp: Let_def split: option.splits)
    from ask_text_asked[OF a] repair_fields_asked_mono[OF r] have "?q \<in> set (asked w')" by auto
    with Cons.prems(2) have ne: "py_str l \<noteq> k" by auto
    from Cons.IH[OF r Cons.prems(2)] ne show ?thesis
      by (cases a) (auto simp: update_conv')
  qed
qed

text \<open>The repair pass changes no entry whose key is not the field of a located error.\<close>

lemma repair_fields_frame_errors:
  "repair_fields es data w = Some (data', w') \<Longrightarrow>
   (\<forall>e \<in> set es. loc e \<noteq> [] \<longrightarrow> py_str (hd (loc e)) \<noteq> k) \<Longrightarrow>
   map_of data' k = map_of data k"
proof (induction es arbitrary: data w)
  case Nil
  then show ?case by simp
next
  case (Cons e es)
  from Cons.prems(2) have tl: "\<forall>e \<in> set es. loc e \<noteq> [] \<longrightarrow> py_str (hd (loc e)) \<noteq> k"
    by simp
  show ?case
  proof (cases "loc e")
    case Nil
    with Cons.prems(1) Cons.IH[OF _ tl] show ?thesis by simp
  next
    case (Cons l ls)
    let ?q = "NewValueAsked (py_str l) (msg e) (py_str (dict_get data (py_str l) (VStr [])))"
    from Cons Cons.prems(1) obtain a w1 where
      a: "ask_text ?q w = Some (a, w1)"
      and r: "repair_fields es (case a of None \<Rightarrow> data
                | Some s \<Rightarrow> AList.update (py_str l) (VStr s) data) w1 = Some (data', w')"
      by (auto simp: Let_def split: option.splits)
    from Cons Cons.prems(2) have ne: "py_str l \<noteq> k" by simp
    from Cons.IH[OF r tl] ne show ?thesis
      by (cases a) (auto simp: update_conv')
  qed
qed

lemma validate_and_fix_asked_mono:
  "validate_and_fix mv data w = Some (r, d, w') \<Longrightarrow> set (asked w) \<subseteq> set (asked w')"
proof (induction mv data w rule: validate_and_fix.induct)
  case (1 mv data w)
  show ?case
  proof (cases "mv data")
    case (Inr inst)
    with "1.prems" show ?thesis by (auto simp: validate_and_fix.simps)
  next
    case (Inl errs)
    with "1.prems" obtain a w1 where ask: "ask_confirm (FixAsked True) w = Some (a, w1)"
      by (auto simp: validate_and_fix.simps split: option.splits)
    show ?thesis
    proof (cases "a = Some True")
      case False
      with Inl ask "1.prems" ask_confirm_asked[OF ask] show ?thesis
        by (auto simp: validate_and_fix.simps)
    next
      case True
      with Inl ask "1.prems" obtain data' w2 where
        rep: "repair_fields errs data w1 = Some (data', w2)"
        and rec: "validate_and_fix mv data' w2 = Some (r, d, w')"
        by (auto simp: validate_and_fix.simps split: option.splits)
      from "1.IH"[OF Inl ask refl _ rep refl rec] True
        repair_fields_asked_mono[OF rep] ask_confirm_asked[OF ask]
      show ?thesis by auto
    qed
  qed
qed

lemma validate_and_fix_frame:
  "validate_and_fix mv data w = Some (r, d, w') \<Longrightarrow>
   (\<forall>m t. NewValueAsked k m t \<notin> set (asked w')) \<Longrightarrow> map_of d k = map_of data k"
proof (induction mv data w rule: validate_and_fix.induct)
  case (1 mv data w)
  show ?case
  proof (cases "mv data")
    case (Inr inst)
    with "1.prems" show ?thesis by (auto simp: validate_and_fix.simps)
  next
    case (Inl errs)
    with "1.prems" obtain a w1 where ask: "ask_confirm (FixAsked True) w = Some (a, w1)"
      by (auto simp: validate_and_fix.simps split: option.splits)
    show ?thesis
    proof (cases "a = Some True")
      case False
      with Inl ask "1.prems" show ?thesis
        by (auto simp: validate_and_fix.simps)
    next
      case True
      with Inl ask "1.prems" obtain data' w2 where
        rep: "repair_fields errs data w1 = Some (data', w2)"
        and rec: "validate_and_fix mv data' w2 = Some (r, d, w')"
        by (auto simp: validate_and_fix.simps split: option.splits)
      from validate_and_fix_asked_mono[OF rec] "1.prems"(2)
      have "\<forall>m t. NewValueAsked k m t \<notin> set (asked w2)" by blast
      from repair_fields_frame[OF rep this]
        "1.IH"[OF Inl ask refl _ rep refl rec "1.prems"(2)] True
      show ?thesis by simp
    qed
  qed
qed

text \<open>
  The loop changes no entry whose key is never the field of a located error that the
  validation reports.
\<close>

lemma validate_and_fix_frame_errors:
  "validate_and_fix mv data w = Some (r, d, w') \<Longrightarrow>
   (\<forall>x errs e. mv x = Inl errs \<and> e \<in> set errs \<and> loc e \<noteq> [] \<longrightarrow> py_str (hd (loc e)) \<noteq> k) \<Longrightarrow>
   map_of d k = map_of data k"
proof (induction mv data w rule: validate_and_fix.induct)
  case (1 mv data w)
  show ?case
  proof (cases "mv data")
    case (Inr inst)
    with "1.prems" show ?thesis by (auto simp: validate_and_fix.simps)
  next
    case (Inl errs)
    with "1.prems" obtain a w1 where ask: "ask_confirm (FixAsked True) w = Some (a, w1)"
      by (auto simp: validate_and_fix.simps split: option.splits)
    show ?thesis
    proof (cases "a = Some True")
      case False
      with Inl ask "1.prems" show ?thesis
        by (auto simp: validate_and_fix.simps)
    next
      case True
      with Inl ask "1.prems" obtain data' w2 where
        rep: "repair_fields errs data w1 = Some (data', w2)"
        and rec: "validate_and_fix mv data' w2 = Some (r, d, w')"
        by (auto simp: validate_and_fix.simps split: option.splits)
      from Inl "1.prems"(2)
      have "\<forall>e \<in> set errs. loc e \<noteq> [] \<longrightarrow> py_str (hd (loc e)) \<noteq> k" by blast
      from repair_fields_frame_errors[OF rep this]
        "1.IH"[OF Inl ask refl _ rep refl rec "1.prems"(2)] True
      show ?thesis by simp
    qed
  qed
qed

text \<open>
  C10, as stated, fails for an error whose request for a new value is cancelled: the
  error is reported with a location, and the entry of its field keeps its value.
\<close>

theorem validate_and_fix_cancelled_counterexample:
  "validate_and_fix (\<lambda>d. Inl [\<lparr> loc = [VStr ''count''], msg = ''bad'' \<rparr>])
     [(''count'', VInt 5)]
     \<lparr> confirm_answers = [Some True, Some False], text_answers = [None], asked = [] \<rparr>
   = Some (None, [(''count'', VInt 5)],
           \<lparr> confirm_answers = [], text_answers = [],
              asked = [FixAsked True, NewValueAsked ''count'' ''bad'' ''5'', FixAsked True] \<rparr>)"
  by (simp add: validate_and_fix.simps ask_confirm_def ask_text_def dict_get_def Let_def
        str_of_int_def str_of_nat.simps digit_char_def)

text \<open>
  C10, amended. The repair pass goes through the reported errors in their order and
  ends with the dict as it is then. An error without a location is passed over. An
  error with a location whose request for a new value is answered with a text stores
  that text, as a string, under the string form of the first element of the location,
  and the pass goes on with the changed dict; a cancelled request leaves the dict as
  it is. In \<^verbatim>\<open>validate_and_fix\<close>, after a failed validation and the answer yes, this pass
  runs on the errors that the validation reported and the loop goes on with its dict;
  after an answer other than yes the dict is returned as it is then, with the repairs
  of the earlier rounds. When \<^verbatim>\<open>validate_and_fix\<close> returns, every key for which no new
  value was requested, and so every key that is never the field of a located error
  reported by the validation, has the entry it had at the call. A run that ends in
  \<^verbatim>\<open>None\<close> can leave a repaired raw string in the dict.
\<close>

theorem validate_and_fix_mutation:
  "repair_fields [] dataB wB = Some (dataB, wB)
   \<and> (loc eu = [] \<longrightarrow> repair_fields (eu # esu) dataU wu = repair_fields esu dataU wu)
   \<and> (loc e = l # ls \<and> text_answers w = Some s # rest \<longrightarrow>
      repair_fields (e # es) data w =
        repair_fields es (AList.update (py_str l) (VStr s) data)
          (w\<lparr> text_answers := rest,
               asked := asked w @ [NewValueAsked (py_str l) (msg e)
                                     (py_str (dict_get data (py_str l) (VStr [])))] \<rparr>))
   \<and> (loc e = l # ls \<and> text_answers wc = None # rest \<longrightarrow>
      repair_fields (e # es) data wc =
        repair_fields es data
          (wc\<lparr> text_answers := rest,
                asked := asked wc @ [NewValueAsked (py_str l) (msg e)
                                      (py_str (dict_get data (py_str l) (VStr [])))] \<rparr>))
   \<and> (model_validate dataS = Inl errsS
        \<and> ask_confirm (FixAsked True) wS = Some (Some True, wSa)
        \<and> repair_fields errsS dataS wSa = Some (dataSr, wSb)
      \<longrightarrow> validate_and_fix model_validate dataS wS = validate_and_fix model_validate dataSr wSb)
   \<and> (model_validate dataA = Inl errsA \<and> ask_confirm (FixAsked True) wA = Some (a, wAa)
        \<and> a \<noteq> Some True
      \<longrightarrow> validate_and_fix model_validate dataA wA = Some (None, dataA, wAa))
   \<and> (validate_and_fix model_validate dataV wV = Some (r, d, wVa)
        \<and> (\<forall>m t. NewValueAsked k m t \<notin> set (asked wVa))
      \<longrightarrow> map_of d k = map_of dataV k)
   \<and> (validate_and_fix model_validate dataF wF = Some (rF, dF, wFa)
        \<and> (\<forall>x errs er. model_validate x = Inl errs \<and> er \<in> set errs \<and> loc er \<noteq> []
               \<longrightarrow> py_str (hd (loc er)) \<noteq> kF)
      \<longrightarrow> map_of dF kF = map_of dataF kF)
   \<and> validate_and_fix (\<lambda>x. Inl [\<lparr> loc = [VStr ''count''], msg = ''bad'' \<rparr>])
        [(''count'', VInt 5), (''label'', VStr ''a'')]
        \<lparr> confirm_answers = [Some True, Some False], text_answers = [Some ''7''], asked = [] \<rparr>
      = Some (None, [(''count'', VStr ''7''), (''label'', VStr ''a'')],
              \<lparr> confirm_answers = [], text_answers = [],
                 asked = [FixAsked True, NewValueAsked ''count'' ''bad'' ''5'', FixAsked True] \<rparr>)"
proof (intro conjI impI)
  show "repair_fields [] dataB wB = Some (dataB, wB)"
    by simp
next
  assume "loc eu = []"
  then show "repair_fields (eu # esu) dataU wu = repair_fields esu dataU wu"
    by simp
next
  assume "loc e = l # ls \<and> text_answers w = Some s # rest"
  then show "repair_fields (e # es) data w =
        repair_fields es (AList.update (py_str l) (VStr s) data)
          (w\<lparr> text_answers := rest,
               asked := asked w @ [NewValueAsked (py_str l) (msg e)
                                     (py_str (dict_get data (py_str l) (VStr [])))] \<rparr>)"
    by (simp add: ask_text_def Let_def)
next
  assume "loc e = l # ls \<and> text_answers wc = None # rest"
  then show "repair_fields (e # es) data wc =
        repair_fields es data
          (wc\<lparr> text_answers := rest,
                asked := asked wc @ [NewValueAsked (py_str l) (msg e)
                                      (py_str (dict_get data (py_str l) (VStr [])))] \<rparr>)"
    by (simp add: ask_text_def Let_def)
next
  assume "model_validate dataS = Inl errsS
            \<and> ask_confirm (FixAsked True) wS = Some (Some True, wSa)
            \<and> repair_fields errsS dataS wSa = Some (dataSr, wSb)"
  then show "validate_and_fix model_validate dataS wS
               = validate_and_fix model_validate dataSr wSb"
    by (simp add: validate_and_fix_round)
next
  assume "model_validate dataA = Inl errsA \<and> ask_confirm (FixAsked True) wA = Some (a, wAa)
            \<and> a \<noteq> Some True"
  then show "validate_and_fix model_validate dataA wA = Some (None, dataA, wAa)"
    by (simp add: validate_and_fix_declined)
next
  assume "validate_and_fix model_validate dataV wV = Some (r, d, wVa)
            \<and> (\<forall>m t. NewValueAsked k m t \<notin> set (asked wVa))"
  then show "map_of d k = map_of dataV k"
    using validate_and_fix_frame by blast
next
  assume "validate_and_fix model_validate dataF wF = Some (rF, dF, wFa)
        \<and> (\<forall>x errs er. model_validate x = Inl errs \<and> er \<in> set errs \<and> loc er \<noteq> []
               \<longrightarrow> py_str (hd (loc er)) \<noteq> kF)"
  then show "map_of dF kF = map_of dataF kF"
    using validate_and_fix_frame_errors[of model_validate dataF wF rF dF wFa kF] by blast
next
  show "validate_and_fix (\<lambda>x. Inl [\<lparr> loc = [VStr ''count''], msg = ''bad'' \<rparr>])
        [(''count'', VInt 5), (''label'', VStr ''a'')]
        \<lparr> confirm_answers = [Some True, Some False], text_answers = [Some ''7''], asked = [] \<rparr>
      = Some (None, [(''count'', VStr ''7''), (''label'', VStr ''a'')],
              \<lparr> confirm_answers = [], text_answers = [],
                 asked = [FixAsked True, NewValueAsked ''count'' ''bad'' ''5'', FixAsked True] \<rparr>)"
    by (simp add: validate_and_fix.simps ask_confirm_def ask_text_def dict_get_def Let_def
          str_of_int_def str_of_nat.simps digit_char_def)
qed

theorem validate_and_fix_mutation_witness:
  "(let e = \<lparr> loc = [VStr ''count''], msg = ''bad'' \<rparr>;
        eu = \<lparr> loc = [], msg = ''the model is inconsistent'' \<rparr>;
        data = [(''count'', VInt 5), (''label'', VStr ''a'')];
        repaired = [(''count'', VStr ''7''), (''label'', VStr ''a'')]
    in repair_fields [eu, e] data
           \<lparr> confirm_answers = [], text_answers = [Some ''7''], asked = [] \<rparr>
         = Some (repaired, \<lparr> confirm_answers = [], text_answers = [],
                             asked = [NewValueAsked ''count'' ''bad'' ''5''] \<rparr>)
     \<and> repair_fields [e] data \<lparr> confirm_answers = [], text_answers = [None], asked = [] \<rparr>
         = Some (data, \<lparr> confirm_answers = [], text_answers = [],
                          asked = [NewValueAsked ''count'' ''bad'' ''5''] \<rparr>)
     \<and> validate_and_fix (\<lambda>x. Inl [eu, e]) data
           \<lparr> confirm_answers = [Some True, Some False], text_answers = [Some ''7''],
              asked = [] \<rparr>
         = Some (None, repaired,
                 \<lparr> confirm_answers = [], text_answers = [],
                    asked = [FixAsked True, NewValueAsked ''count'' ''bad'' ''5'',
                             FixAsked True] \<rparr>)
     \<and> map_of repaired ''label'' = map_of data ''label'')"
proof -
  let ?e = "\<lparr> loc = [VStr ''count''], msg = ''bad'' \<rparr>"
  let ?eu = "\<lparr> loc = [], msg = ''the model is inconsistent'' \<rparr>"
  let ?data = "[(''count'', VInt 5), (''label'', VStr ''a'')]"
  let ?rep = "[(''count'', VStr ''7''), (''label'', VStr ''a'')]"
  let ?q = "NewValueAsked ''count'' ''bad'' ''5''"
  let ?w = "\<lparr> confirm_answers = [], text_answers = [Some ''7''], asked = [] \<rparr>"
  let ?wd = "\<lparr> confirm_answers = [], text_answers = [], asked = [?q] \<rparr>"
  let ?wc = "\<lparr> confirm_answers = [], text_answers = [None], asked = [] \<rparr>"
  let ?wS = "\<lparr> confirm_answers = [Some True, Some False], text_answers = [Some ''7''],
               asked = [] \<rparr>"
  let ?wSa = "\<lparr> confirm_answers = [Some False], text_answers = [Some ''7''],
                asked = [FixAsked True] \<rparr>"
  let ?wSb = "\<lparr> confirm_answers = [Some False], text_answers = [],
                asked = [FixAsked True, ?q] \<rparr>"
  let ?wEnd = "\<lparr> confirm_answers = [], text_answers = [],
                 asked = [FixAsked True, ?q, FixAsked True] \<rparr>"
  let ?mv = "\<lambda>x::dict. (Inl [?eu, ?e] :: ErrorDetails list + pyval)"
  note pass = validate_and_fix_mutation[where dataB = ?rep and wB = ?wd
      and eu = ?eu and esu = "[?e]" and dataU = ?data and wu = ?w
      and e = ?e and l = "VStr ''count''" and ls = "[]" and w = ?w and s = "''7''"
      and rest = "[]" and es = "[]" and data = ?data and wc = ?wc
      and model_validate = ?mv and dataS = ?data and errsS = "[?eu, ?e]" and wS = ?wS
      and wSa = ?wSa and dataSr = ?rep and wSb = ?wSb
      and dataA = ?rep and errsA = "[?eu, ?e]" and wA = ?wSb and a = "Some False"
      and wAa = ?wEnd
      and dataV = ?data and wV = ?wS and r = None and d = ?rep and wVa = ?wEnd
      and k = "''label''"
      and dataF = ?data and wF = ?wS and rF = None and dF = ?rep and wFa = ?wEnd
      and kF = "''label''"]
  note fin = validate_and_fix_mutation[where dataB = ?data and wB = ?wd
      and eu = ?eu and esu = "[?e]" and dataU = ?data and wu = ?w
      and e = ?e and l = "VStr ''count''" and ls = "[]" and w = ?w and s = "''7''"
      and rest = "[]" and es = "[]" and data = ?data and wc = ?wc
      and model_validate = ?mv and dataS = ?data and errsS = "[?eu, ?e]" and wS = ?wS
      and wSa = ?wSa and dataSr = ?rep and wSb = ?wSb
      and dataA = ?rep and errsA = "[?eu, ?e]" and wA = ?wSb and a = "Some False"
      and wAa = ?wEnd
      and dataV = ?data and wV = ?wS and r = None and d = ?rep and wVa = ?wEnd
      and k = "''label''"
      and dataF = ?data and wF = ?wS and rF = None and dF = ?rep and wFa = ?wEnd
      and kF = "''label''"]
  have t: "dict_get ?data ''count'' (VStr []) = VInt 5" "str_of_int 5 = ''5''"
    by (simp_all add: dict_get_def str_of_int_def str_of_nat.simps digit_char_def)
  from pass t have p1: "repair_fields [?e] ?data ?w = Some (?rep, ?wd)"
    by simp
  with pass have p2: "repair_fields [?eu, ?e] ?data ?w = Some (?rep, ?wd)"
    by simp
  from fin t have p3: "repair_fields [?e] ?data ?wc = Some (?data, ?wd)"
    by simp
  have p4: "repair_fields [?eu, ?e] ?data ?wSa = Some (?rep, ?wSb)"
    by (simp add: ask_text_def Let_def t)
  have q: "ask_confirm (FixAsked True) ?wS = Some (Some True, ?wSa)"
    "ask_confirm (FixAsked True) ?wSb = Some (Some False, ?wEnd)"
    by (simp_all add: ask_confirm_def)
  from pass p4 q have run: "validate_and_fix ?mv ?data ?wS = Some (None, ?rep, ?wEnd)"
    by simp
  with pass have "map_of ?rep ''label'' = map_of ?data ''label''"
    by simp
  with p2 p3 run show ?thesis
    unfolding Let_def by simp
qed

subsection \<open>The gate of optional fields\<close>

text \<open>
  C6, as stated, fails on the yes branch for an optional field whose inner type no
  handler of the registry accepts, such as \<^verbatim>\<open>bytes | None\<close>: the operator answers yes,
  no handler is invoked and the result is \<^verbatim>\<open>None\<close>.
\<close>

theorem optional_gate_unhandled_counterexample:
  "map_sum id
     (\<lambda>spec. (is_optional spec,
        OptionalHandler_prompt (\<lambda>h s d w. Some (VStr ''typed'', w)) (spec\<lparr> name := ''blob'' \<rparr>)
          VNone (Some TypeHandlerRegistry_init)
          \<lparr> confirm_answers = [Some True], text_answers = [], asked = [] \<rparr>))
     (resolve_type (Alias UnionType [OtherT ''bytes'', NoneType]))
   = Inr (True, Some (VNone, \<lparr> confirm_answers = [], text_answers = [],
                               asked = [ConfigureAsked ''blob'' False] \<rparr>))"
  by (simp add: resolve_type.simps[of "Alias UnionType [OtherT ''bytes'', NoneType]"]
        resolve_type.simps[of "OtherT ''bytes''"] Let_def py_index_def copy_inner_def
        is_none_type_def FieldSpec_init_def OptionalHandler_prompt_def ask_confirm_def
        optional_inner_spec_def TypeHandlerRegistry_init_def)

text \<open>
  C6, amended. The default registry gives every optional descriptor to
  \<^verbatim>\<open>OptionalHandler\<close>. Its gate is asked with the default answer true exactly when the
  default is not \<^verbatim>\<open>None\<close>. An answer other than yes (no, or the question cancelled)
  yields \<^verbatim>\<open>None\<close> with only the gate asked: no handler is invoked. The answer yes
  invokes the handler that the registry selects for the descriptor re-flagged as not
  optional (and not required), with the same default, and returns its result; when no
  registry is given, or the registry has no handler for the re-flagged descriptor, it
  yields \<^verbatim>\<open>None\<close> with no handler invoked.
\<close>

theorem optional_gate:
  "(is_optional spec \<longrightarrow> get_handler TypeHandlerRegistry_init spec = Some OptionalHandler)
   \<and> (confirm_answers w = a # rest \<and> a \<noteq> Some True \<longrightarrow>
        OptionalHandler_prompt prompt spec dflt registry w =
          Some (VNone, w\<lparr> confirm_answers := rest,
                          asked := asked w @ [ConfigureAsked (name spec) (dflt \<noteq> VNone)] \<rparr>))
   \<and> (confirm_answers wy = Some True # resty
        \<and> get_handler reg (optional_inner_spec spec) = Some h \<longrightarrow>
        OptionalHandler_prompt prompt spec dflt (Some reg) wy =
          prompt h (optional_inner_spec spec) dflt
            (wy\<lparr> confirm_answers := resty,
                  asked := asked wy @ [ConfigureAsked (name spec) (dflt \<noteq> VNone),
                                       HandlerPrompted h (optional_inner_spec spec) dflt] \<rparr>)
        \<and> \<not> is_optional (optional_inner_spec spec)
        \<and> \<not> is_required (optional_inner_spec spec)
        \<and> inner_type (optional_inner_spec spec) = inner_type spec)
   \<and> (confirm_answers wy = Some True # resty \<longrightarrow>
        OptionalHandler_prompt prompt spec dflt None wy =
          Some (VNone, wy\<lparr> confirm_answers := resty,
                           asked := asked wy @ [ConfigureAsked (name spec) (dflt \<noteq> VNone)] \<rparr>))
   \<and> (confirm_answers wy = Some True # resty
        \<and> get_handler regn (optional_inner_spec spec) = None \<longrightarrow>
        OptionalHandler_prompt prompt spec dflt (Some regn) wy =
          Some (VNone, wy\<lparr> confirm_answers := resty,
                           asked := asked wy @ [ConfigureAsked (name spec) (dflt \<noteq> VNone)] \<rparr>))"
  by (auto simp: TypeHandlerRegistry_init_def OptionalHandler_prompt_def ask_confirm_def
        call_prompt_def Let_def optional_inner_spec_def FieldSpec_init_def)

theorem optional_gate_witness:
  "(let spec = (FieldSpec_init ''age'')\<lparr> is_optional := True, inner_type := Some IntT \<rparr>;
        blob = (FieldSpec_init ''blob'')\<lparr> is_optional := True,
                  inner_type := Some (OtherT ''bytes'') \<rparr>;
        prompt = (\<lambda>h s d w. Some (VInt 7, w));
        idle = \<lparr> confirm_answers = [], text_answers = [], asked = [] \<rparr>
    in get_handler TypeHandlerRegistry_init spec = Some OptionalHandler
     \<and> OptionalHandler_prompt prompt spec (VInt 3) (Some TypeHandlerRegistry_init)
           (idle\<lparr> confirm_answers := [Some False] \<rparr>)
         = Some (VNone, idle\<lparr> asked := [ConfigureAsked ''age'' True] \<rparr>)
     \<and> OptionalHandler_prompt prompt spec VNone (Some TypeHandlerRegistry_init)
           (idle\<lparr> confirm_answers := [Some True] \<rparr>)
         = Some (VInt 7, idle\<lparr> asked := [ConfigureAsked ''age'' False,
                                           HandlerPrompted IntHandler (optional_inner_spec spec) VNone] \<rparr>)
     \<and> OptionalHandler_prompt prompt spec VNone None (idle\<lparr> confirm_answers := [Some True] \<rparr>)
         = Some (VNone, idle\<lparr> asked := [ConfigureAsked ''age'' False] \<rparr>)
     \<and> OptionalHandler_prompt prompt blob VNone (Some TypeHandlerRegistry_init)
           (idle\<lparr> confirm_answers := [Some True] \<rparr>)
         = Some (VNone, idle\<lparr> asked := [ConfigureAsked ''blob'' False] \<rparr>))"
proof -
  let ?spec = "(FieldSpec_init ''age'')\<lparr> is_optional := True, inner_type := Some IntT \<rparr>"
  let ?blob = "(FieldSpec_init ''blob'')\<lparr> is_optional := True,
                  inner_type := Some (OtherT ''bytes'') \<rparr>"
  let ?prompt = "\<lambda>(h::handler) (s::FieldSpec) (d::pyval) (w::world). Some (VInt 7, w)"
  let ?idle = "\<lparr> confirm_answers = [], text_answers = [], asked = [] \<rparr>"
  note no = optional_gate[where spec = ?spec and w = "?idle\<lparr> confirm_answers := [Some False] \<rparr>"
      and a = "Some False" and rest = "[]" and prompt = ?prompt and dflt = "VInt 3"
      and registry = "Some TypeHandlerRegistry_init"
      and wy = "?idle\<lparr> confirm_answers := [Some True] \<rparr>" and resty = "[]"
      and reg = TypeHandlerRegistry_init and h = IntHandler and regn = "[]"]
  note yes = optional_gate[where spec = ?spec and w = "?idle\<lparr> confirm_answers := [Some False] \<rparr>"
      and a = "Some False" and rest = "[]" and prompt = ?prompt and dflt = VNone
      and registry = "Some TypeHandlerRegistry_init"
      and wy = "?idle\<lparr> confirm_answers := [Some True] \<rparr>" and resty = "[]"
      and reg = TypeHandlerRegistry_init and h = IntHandler and regn = "[]"]
  note unhandled = optional_gate[where spec = ?blob
      and w = "?idle\<lparr> confirm_answers := [Some False] \<rparr>"
      and a = "Some False" and rest = "[]" and prompt = ?prompt and dflt = VNone
      and registry = "Some TypeHandlerRegistry_init"
      and wy = "?idle\<lparr> confirm_answers := [Some True] \<rparr>" and resty = "[]"
      and reg = TypeHandlerRegistry_init and h = IntHandler
      and regn = TypeHandlerRegistry_init]
  have h1: "get_handler TypeHandlerRegistry_init (optional_inner_spec ?spec) = Some IntHandler"
    by (simp add: TypeHandlerRegistry_init_def optional_inner_spec_def FieldSpec_init_def)
  have h2: "get_handler TypeHandlerRegistry_init (optional_inner_spec ?blob) = None"
    by (simp add: TypeHandlerRegistry_init_def optional_inner_spec_def FieldSpec_init_def)
  have h3: "is_optional ?spec" "name ?spec = ''age''" "name ?blob = ''blob''"
    by (simp_all add: FieldSpec_init_def)
  from no yes unhandled h1 h2 h3 show ?thesis
    unfolding Let_def by simp
qed

subsection \<open>Serialising a set\<close>

text \<open>
  C2 states that serialising a set yields its elements sorted by their string forms.
  \<^verbatim>\<open>_prepare_value\<close> does so; \<^verbatim>\<open>SetHandler.serialize\<close> lists the set in its iteration
  order. For the set of 8 and 0 that iterates as 8, 0 (the order in which CPython
  holds \<^verbatim>\<open>{8, 0}\<close>) the handler returns \<^verbatim>\<open>[8, 0]\<close> and \<^verbatim>\<open>_prepare_value\<close> returns
  \<^verbatim>\<open>[0, 8]\<close>.
\<close>

theorem SetHandler_serialize_unsorted:
  "SetHandler_serialize (VSet [VInt 8, VInt 0]) = VList [VInt 8, VInt 0]
   \<and> prepare_value (VSet [VInt 8, VInt 0]) = VList [VInt 0, VInt 8]
   \<and> SetHandler_serialize (VSet [VStr ''b'', VStr ''a'']) = VList [VStr ''b'', VStr ''a'']
   \<and> prepare_value (VSet [VStr ''b'', VStr ''a'']) = VList [VStr ''a'', VStr ''b'']"
  by (simp add: str_of_int_def str_of_nat.simps digit_char_def)

subsection \<open>The round trip through serialize and deserialize\<close>


























end
